theory Spec2Isabelle
  imports Complex_Main
begin

section \<open>JavaScript strings and numbers\<close>

text \<open>
  A JavaScript string is a sequence of UTF-16 code units, and \<^verbatim>\<open>s.length\<close> is the number
  of its code units. A string is modelled as the list of its code units, each a natural
  number. \<open>str\<close> turns an ASCII literal into such a list.
\<close>

type_synonym js_string = "nat list"

definition str :: "string \<Rightarrow> js_string" where
  "str s = map of_char s"

definition newline :: js_string where
  "newline = [10]"

text \<open>
  The code units \<^verbatim>\<open>trim\<close> strips: the white space and line terminator characters of
  the language (TAB, LF, VT, FF, CR, SP, NBSP, U+1680, U+2000 to U+200A, U+2028, U+2029,
  U+202F, U+205F, U+3000, U+FEFF).
\<close>

definition isWhiteSpace :: "nat \<Rightarrow> bool" where
  "isWhiteSpace u =
     (u \<in> {9, 10, 11, 12, 13, 32, 160, 5760, 8232, 8233, 8239, 8287, 12288, 65279}
      \<or> (8192 \<le> u \<and> u \<le> 8202))"

text \<open>\<^verbatim>\<open>s.trim()\<close>\<close>

definition trim :: "js_string \<Rightarrow> js_string" where
  "trim s = rev (dropWhile isWhiteSpace (rev (dropWhile isWhiteSpace s)))"

text \<open>\<^verbatim>\<open>s.startsWith(p)\<close>\<close>

fun startsWith :: "js_string \<Rightarrow> js_string \<Rightarrow> bool" where
  "startsWith s [] = True"
| "startsWith [] (p # ps) = False"
| "startsWith (c # cs) (p # ps) = (c = p \<and> startsWith cs ps)"

text \<open>\<^verbatim>\<open>s.endsWith(p)\<close>\<close>

definition endsWith :: "js_string \<Rightarrow> js_string \<Rightarrow> bool" where
  "endsWith s p = startsWith (rev s) (rev p)"

text \<open>\<^verbatim>\<open>s.includes(p)\<close>: \<open>p\<close> occurs in \<open>s\<close> as a contiguous substring.\<close>

fun includes_str :: "js_string \<Rightarrow> js_string \<Rightarrow> bool" where
  "includes_str [] p = (p = [])"
| "includes_str (c # cs) p = (startsWith (c # cs) p \<or> includes_str cs p)"

text \<open>
  A JavaScript number is an IEEE 754 double. A finite double is a rational number, and
  every arithmetic operation returns the double nearest to the exact result, ties going to
  the even significand. \<open>toDouble\<close> is that rounding: 53 significant bits, exponents from
  \<open>-1022\<close> (below that the spacing of the subnormal numbers). Results of magnitude
  \<open>2^1024\<close> or more, which are infinite in JavaScript, are outside this model.
\<close>

definition pow2 :: "int \<Rightarrow> rat" where
  "pow2 k = (if 0 \<le> k then 2 ^ nat k else 1 / 2 ^ nat (- k))"

text \<open>The number of binary digits of a positive integer.\<close>

function bitLength :: "int \<Rightarrow> nat" where
  "bitLength n = (if n \<le> 0 then 0 else Suc (bitLength (n div 2)))"
  by pat_completeness auto
termination
  by (relation "measure nat") auto

text \<open>For \<open>x > 0\<close>, the exponent \<open>e\<close> with \<open>2^e \<le> x < 2^(e + 1)\<close>.\<close>

definition binaryExponent :: "rat \<Rightarrow> int" where
  "binaryExponent x =
     (let (a, b) = quotient_of x;
          k = int (bitLength a) - int (bitLength b)
      in if pow2 k \<le> x then k else k - 1)"

definition roundHalfEven :: "rat \<Rightarrow> int" where
  "roundHalfEven m =
     (let f = \<lfloor>m\<rfloor>; d = m - of_int f
      in if d < 1 / 2 then f else if 1 / 2 < d then f + 1 else if even f then f else f + 1)"

definition toDouble :: "rat \<Rightarrow> rat" where
  "toDouble x =
     (if x = 0 then 0
      else let ulp = pow2 (max (binaryExponent \<bar>x\<bar>) (- 1022) - 52)
           in sgn x * of_int (roundHalfEven (\<bar>x\<bar> / ulp)) * ulp)"

definition fdiv :: "rat \<Rightarrow> rat \<Rightarrow> rat" where
  "fdiv x y = toDouble (x / y)"

definition fmul :: "rat \<Rightarrow> rat \<Rightarrow> rat" where
  "fmul x y = toDouble (x * y)"

definition fadd :: "rat \<Rightarrow> rat \<Rightarrow> rat" where
  "fadd x y = toDouble (x + y)"

section \<open>The Gemini call adapter (utils/gemini.js)\<close>

subsection \<open>Data\<close>

text \<open>
  A thrown value. \<open>Null\<close> is \<^verbatim>\<open>null\<close> or \<^verbatim>\<open>undefined\<close>, on which reading a
  property throws. Any other value is \<open>Thrown m\<close>, with \<open>m\<close> its \<^verbatim>\<open>message\<close> property
  when it has one. \<^verbatim>\<open>new Error(m)\<close> is \<open>Thrown (Some m)\<close>.
\<close>

datatype thrown = Null | Thrown "js_string option"

abbreviation Error :: "js_string \<Rightarrow> thrown" where
  "Error m \<equiv> Thrown (Some m)"

text \<open>The argument of \<^verbatim>\<open>client.models.generateContent\<close>.\<close>

record request =
  req_model :: js_string
  contents :: js_string
  responseMimeType :: js_string

record usage_metadata =
  promptTokenCount :: "nat option"
  candidatesTokenCount :: "nat option"

record response =
  resp_text :: "js_string option"
  usageMetadata :: "usage_metadata option"

text \<open>What one delegated call does: it throws, or it returns a response.\<close>

datatype call_outcome = Throws thrown | Returns response

text \<open>
  The world around \<^verbatim>\<open>callGemini\<close>. \<open>aiClient\<close> is the module variable of that name
  (\<open>None\<close> is \<^verbatim>\<open>null\<close>: \<^verbatim>\<open>initGemini\<close> has not run); an initialised client answers
  the \<open>n\<close>-th call of an invocation on a given request. \<open>JSON_parse\<close> is
  \<^verbatim>\<open>JSON.parse\<close>, which throws or returns the parsed value. \<open>GEMINI_MODEL\<close> is the
  environment variable. \<open>toFixed4\<close> and \<open>numberToString\<close> are the number formatting of
  \<^verbatim>\<open>currentCost.toFixed(4)\<close> and of a number inside a template literal.
  \<open>nullReadMessage\<close> is the message of the \<^verbatim>\<open>TypeError\<close> that reading a property of
  \<^verbatim>\<open>null\<close> or \<^verbatim>\<open>undefined\<close> throws; its text is the engine's.
\<close>

record 'j world =
  aiClient :: "(request \<Rightarrow> nat \<Rightarrow> call_outcome) option"
  JSON_parse :: "js_string \<Rightarrow> thrown + 'j"
  GEMINI_MODEL :: "js_string option"
  toFixed4 :: "rat \<Rightarrow> js_string"
  numberToString :: "rat \<Rightarrow> js_string"
  nullReadMessage :: js_string

text \<open>
  The parameter object of \<^verbatim>\<open>callGemini\<close>. \<open>None\<close> is a property that is left out:
  the destructuring defaults apply to it.
\<close>

record call_args =
  systemPrompt :: js_string
  userPrompt :: js_string
  agentName :: "js_string option"
  currentCost :: "rat option"
  tokenBudget :: "rat option"
  arg_model :: "js_string option"

record tokens =
  tok_input :: nat
  tok_output :: nat
  tok_cost :: rat

record 'j call_result =
  parsed :: 'j
  raw :: js_string
  result_tokens :: tokens

text \<open>What an invocation does to the outside, in order.\<close>

datatype event = Issued request | Waited nat

subsection \<open>Operations\<close>

definition getClient :: "'j world \<Rightarrow> thrown + (request \<Rightarrow> nat \<Rightarrow> call_outcome)" where
  "getClient w =
     (case aiClient w of
        None \<Rightarrow> Inl (Error (str ''Gemini not initialized. Call initGemini(apiKey) first.''))
      | Some c \<Rightarrow> Inr c)"

definition MAX_RETRIES :: nat where
  "MAX_RETRIES = 3"

definition defaultAgentName :: "call_args \<Rightarrow> js_string" where
  "defaultAgentName a = (case agentName a of None \<Rightarrow> str ''unknown'' | Some n \<Rightarrow> n)"

definition effectiveCost :: "call_args \<Rightarrow> rat" where
  "effectiveCost a = (case currentCost a of None \<Rightarrow> 0 | Some c \<Rightarrow> c)"

definition effectiveBudget :: "call_args \<Rightarrow> rat" where
  "effectiveBudget a = (case tokenBudget a of None \<Rightarrow> 2 | Some b \<Rightarrow> b)"

text \<open>\<^verbatim>\<open>model || process.env.GEMINI_MODEL || "gemini-2.5-flash"\<close>: an empty string is falsy.\<close>

definition modelName :: "'j world \<Rightarrow> call_args \<Rightarrow> js_string" where
  "modelName w a =
     (case arg_model a of
        Some m \<Rightarrow> if m \<noteq> [] then m else
          (case GEMINI_MODEL w of
             Some g \<Rightarrow> if g \<noteq> [] then g else str ''gemini-2.5-flash''
           | None \<Rightarrow> str ''gemini-2.5-flash'')
      | None \<Rightarrow>
          (case GEMINI_MODEL w of
             Some g \<Rightarrow> if g \<noteq> [] then g else str ''gemini-2.5-flash''
           | None \<Rightarrow> str ''gemini-2.5-flash''))"

definition fullPrompt :: "call_args \<Rightarrow> js_string" where
  "fullPrompt a =
     systemPrompt a @ newline @ newline @ str ''---'' @ newline @ newline @ str ''INPUT:'' @ newline
     @ userPrompt a @ newline @ newline @ str ''---'' @ newline @ newline
     @ str ''IMPORTANT: Respond with ONLY valid JSON. No markdown, no backticks, no explanation outside JSON.''"

definition budgetExceeded :: "'j world \<Rightarrow> call_args \<Rightarrow> thrown" where
  "budgetExceeded w a =
     Error (str ''TOKEN_BUDGET_EXCEEDED: $'' @ toFixed4 w (effectiveCost a)
            @ str '' >= budget $'' @ numberToString w (effectiveBudget a))"

definition theRequest :: "'j world \<Rightarrow> call_args \<Rightarrow> request" where
  "theRequest w a =
     \<lparr>req_model = modelName w a, contents = fullPrompt a,
      responseMimeType = str ''application/json''\<rparr>"

text \<open>\<^verbatim>\<open>response.text || ""\<close>\<close>

definition rawText :: "response \<Rightarrow> js_string" where
  "rawText r = (case resp_text r of None \<Rightarrow> [] | Some t \<Rightarrow> t)"

text \<open>\<^verbatim>\<open>Math.ceil(s.length / 4)\<close>\<close>

definition estimateTokens :: "js_string \<Rightarrow> nat" where
  "estimateTokens s = (length s + 3) div 4"

text \<open>\<^verbatim>\<open>count || estimate\<close>: a missing count and a count of 0 are falsy.\<close>

definition countOr :: "nat option \<Rightarrow> nat \<Rightarrow> nat" where
  "countOr c est = (case c of None \<Rightarrow> est | Some n \<Rightarrow> if n = 0 then est else n)"

text \<open>
  \<^verbatim>\<open>usageMetadata?.promptTokenCount\<close> and \<^verbatim>\<open>usageMetadata?.candidatesTokenCount\<close>:
  the counts a response reports, if it reports usage at all.
\<close>

definition reportedPromptTokens :: "response \<Rightarrow> nat option" where
  "reportedPromptTokens r =
     (case usageMetadata r of None \<Rightarrow> None | Some u \<Rightarrow> promptTokenCount u)"

definition reportedCandidatesTokens :: "response \<Rightarrow> nat option" where
  "reportedCandidatesTokens r =
     (case usageMetadata r of None \<Rightarrow> None | Some u \<Rightarrow> candidatesTokenCount u)"

definition inputTokens :: "js_string \<Rightarrow> response \<Rightarrow> nat" where
  "inputTokens prompt r = countOr (reportedPromptTokens r) (estimateTokens prompt)"

definition outputTokens :: "response \<Rightarrow> nat" where
  "outputTokens r = countOr (reportedCandidatesTokens r) (estimateTokens (rawText r))"

text \<open>
  \<^verbatim>\<open>(inputTokens / 1_000_000) * 0.15 + (outputTokens / 1_000_000) * 0.60\<close>, in doubles:
  the literals \<^verbatim>\<open>0.15\<close> and \<^verbatim>\<open>0.60\<close> are the doubles nearest to them, and each of the
  five operations rounds.
\<close>

definition cost :: "nat \<Rightarrow> nat \<Rightarrow> rat" where
  "cost i out =
     fadd (fmul (fdiv (toDouble (of_nat i)) 1000000) (toDouble (15 / 100)))
          (fmul (fdiv (toDouble (of_nat out)) 1000000) (toDouble (60 / 100)))"

definition measuredTokens :: "js_string \<Rightarrow> response \<Rightarrow> tokens" where
  "measuredTokens prompt r =
     \<lparr>tok_input = inputTokens prompt r, tok_output = outputTokens r,
      tok_cost = cost (inputTokens prompt r) (outputTokens r)\<rparr>"

text \<open>
  The cleaning before \<^verbatim>\<open>JSON.parse\<close>: trim; when the text starts with a code fence,
  \<^verbatim>\<open>replace(/^```(?:json)?\n?/, "")\<close> and then \<^verbatim>\<open>replace(/\n?```$/, "")\<close>.
\<close>

definition dropPrefix :: "js_string \<Rightarrow> js_string \<Rightarrow> js_string" where
  "dropPrefix p s = (if startsWith s p then drop (length p) s else s)"

definition dropSuffix :: "js_string \<Rightarrow> js_string \<Rightarrow> js_string" where
  "dropSuffix p s = (if endsWith s p then take (length s - length p) s else s)"

definition stripOpeningFence :: "js_string \<Rightarrow> js_string" where
  "stripOpeningFence s = dropPrefix newline (dropPrefix (str ''json'') (dropPrefix (str ''```'') s))"

definition stripClosingFence :: "js_string \<Rightarrow> js_string" where
  "stripClosingFence s =
     (if endsWith s (str ''```'') then dropSuffix newline (dropSuffix (str ''```'') s) else s)"

definition cleanText :: "js_string \<Rightarrow> js_string" where
  "cleanText rawT =
     (let t = trim rawT
      in if startsWith t (str ''```'') then stripClosingFence (stripOpeningFence t) else t)"

text \<open>
  One pass through the body of the \<^verbatim>\<open>for\<close> loop ends in one of three ways: the
  function returns, the function throws, or the loop goes on to the next attempt
  (with the new \<^verbatim>\<open>lastError\<close>, after a wait when there is one).
\<close>

datatype 'j step = Return "'j call_result" | Throw thrown | Next thrown "nat option"

text \<open>
  \<^verbatim>\<open>error.message?.includes("TOKEN_BUDGET_EXCEEDED")\<close>: how the source recognises the
  budget-exceeded condition, on a thrown value that has a \<^verbatim>\<open>message\<close> to read. A
  value without one is not a budget error.
\<close>

definition isBudgetError :: "thrown \<Rightarrow> bool" where
  "isBudgetError error =
     (case error of
        Null \<Rightarrow> False
      | Thrown m \<Rightarrow>
          (case m of None \<Rightarrow> False | Some t \<Rightarrow> includes_str t (str ''TOKEN_BUDGET_EXCEEDED'')))"

text \<open>
  The outer \<^verbatim>\<open>catch (error)\<close> block. When the value caught is \<^verbatim>\<open>null\<close> or
  \<^verbatim>\<open>undefined\<close>, reading \<^verbatim>\<open>error.message\<close> throws a \<^verbatim>\<open>TypeError\<close> out of the
  block, and so out of the function.
\<close>

definition catchBlock :: "'j world \<Rightarrow> nat \<Rightarrow> thrown \<Rightarrow> 'j step" where
  "catchBlock w attempt error =
     (case error of
        Null \<Rightarrow> Throw (Error (nullReadMessage w))
      | Thrown m \<Rightarrow>
          if isBudgetError error
          then Throw error
          else if attempt = MAX_RETRIES then Throw error
          else Next error (Some (2 ^ attempt * 1000)))"

text \<open>The \<^verbatim>\<open>try\<close> block with its handlers, after the call of this attempt came back.\<close>

definition tryBlock :: "'j world \<Rightarrow> js_string \<Rightarrow> nat \<Rightarrow> call_outcome \<Rightarrow> 'j step" where
  "tryBlock w prompt attempt outcome =
     (case outcome of
        Throws error \<Rightarrow> catchBlock w attempt error
      | Returns resp \<Rightarrow>
          (case JSON_parse w (cleanText (rawText resp)) of
             Inl parseError \<Rightarrow>
               if attempt = MAX_RETRIES
               then catchBlock w attempt (Error (str ''JSON_PARSE_FAILED after 3 attempts.''))
               else Next parseError None
           | Inr p \<Rightarrow>
               Return \<lparr>parsed = p, raw = rawText resp,
                       result_tokens = measuredTokens prompt resp\<rparr>))"

text \<open>
  The \<^verbatim>\<open>for\<close> loop, from attempt number \<open>attempt\<close> on, and the \<^verbatim>\<open>throw lastError\<close>
  behind it (\<^verbatim>\<open>lastError\<close> is \<^verbatim>\<open>null\<close> there when no attempt ran).
\<close>

function retryLoop ::
  "'j world \<Rightarrow> (request \<Rightarrow> nat \<Rightarrow> call_outcome) \<Rightarrow> request \<Rightarrow> nat \<Rightarrow> thrown option \<Rightarrow> event list
     \<Rightarrow> event list \<times> (thrown + 'j call_result)" where
  "retryLoop w client req attempt lastError tr =
     (if attempt \<le> MAX_RETRIES then
        (case tryBlock w (contents req) attempt (client req attempt) of
           Return r \<Rightarrow> (tr @ [Issued req], Inr r)
         | Throw e \<Rightarrow> (tr @ [Issued req], Inl e)
         | Next e wait \<Rightarrow>
             retryLoop w client req (attempt + 1) (Some e)
               (tr @ [Issued req] @ (case wait of None \<Rightarrow> [] | Some ms \<Rightarrow> [Waited ms])))
      else (tr, Inl (case lastError of None \<Rightarrow> Null | Some e \<Rightarrow> e)))"
  by pat_completeness auto
termination
  by (relation "measure (\<lambda>(w, client, req, attempt, lastError, tr). Suc MAX_RETRIES - attempt)") auto

definition callGemini :: "'j world \<Rightarrow> call_args \<Rightarrow> event list \<times> (thrown + 'j call_result)" where
  "callGemini w a =
     (case getClient w of
        Inl e \<Rightarrow> ([], Inl e)
      | Inr client \<Rightarrow>
          if effectiveCost a \<ge> effectiveBudget a then ([], Inl (budgetExceeded w a))
          else retryLoop w client (theRequest w a) 1 None [])"

text \<open>
  \<^verbatim>\<open>makeTokenDelta(agentName, tokens)\<close>; \<open>now\<close> is what \<^verbatim>\<open>Date.now()\<close> returns.
\<close>

record call_record =
  agent :: js_string
  rec_inputTokens :: nat
  rec_outputTokens :: nat
  timestamp :: nat

record token_delta =
  newCalls :: "call_record list"
  addedInput :: nat
  addedOutput :: nat
  addedCost :: rat

definition makeTokenDelta :: "nat \<Rightarrow> js_string \<Rightarrow> tokens \<Rightarrow> token_delta" where
  "makeTokenDelta now agentNm t =
     \<lparr>newCalls = [\<lparr>agent = agentNm, rec_inputTokens = tok_input t,
                   rec_outputTokens = tok_output t, timestamp = now\<rparr>],
      addedInput = tok_input t, addedOutput = tok_output t, addedCost = tok_cost t\<rparr>"

text \<open>
  \<^verbatim>\<open>makeTokenDelta(name, result.tokens)\<close> on the outcome of \<^verbatim>\<open>callGemini\<close>: the delta
  when the invocation returns a result, and what it threw when it throws, in which case
  there are no tokens to build a delta from. This is the one expression the agent nodes
  evaluate to obtain their \<^verbatim>\<open>tokenUsage\<close>. It is not a node: what a node does with
  \<^verbatim>\<open>result.parsed\<close> after the call has returned, which can throw, is not part of it.
\<close>

definition nodeTokenUsage :: "nat \<Rightarrow> js_string \<Rightarrow> 'j world \<Rightarrow> call_args \<Rightarrow> thrown + token_delta" where
  "nodeTokenUsage now nodeName w a =
     (case snd (callGemini w a) of
        Inl e \<Rightarrow> Inl e
      | Inr result \<Rightarrow> Inr (makeTokenDelta now nodeName (result_tokens result)))"

text \<open>The number of delegated calls in a trace.\<close>

fun issuedCount :: "event list \<Rightarrow> nat" where
  "issuedCount [] = 0"
| "issuedCount (Issued r # es) = Suc (issuedCount es)"
| "issuedCount (Waited ms # es) = issuedCount es"

subsection \<open>The consumption of an attempt, in the words of the specification\<close>

text \<open>
  These two definitions are not taken from the source. They say what the specification
  calls the measured or size-estimated consumption: the count that the service reported,
  when it reported one that is positive, and otherwise a quarter of the length of the text,
  rounded up.
\<close>

definition spec_sizeEstimate :: "js_string \<Rightarrow> nat" where
  "spec_sizeEstimate txt = nat \<lceil>rat_of_nat (length txt) / 4\<rceil>"

definition spec_consumption :: "nat option \<Rightarrow> js_string \<Rightarrow> nat" where
  "spec_consumption reported txt =
     (case reported of
        Some n \<Rightarrow> if 0 < n then n else spec_sizeEstimate txt
      | None \<Rightarrow> spec_sizeEstimate txt)"

subsection \<open>Example worlds\<close>

text \<open>
  A response whose text parses, with measured usage; one whose text parses and that
  reports no usage; and one whose text does not parse.
\<close>

definition goodResponse :: response where
  "goodResponse =
     \<lparr>resp_text = Some (str ''{}''),
      usageMetadata = Some \<lparr>promptTokenCount = Some 120, candidatesTokenCount = Some 30\<rparr>\<rparr>"

definition unmeteredResponse :: response where
  "unmeteredResponse = \<lparr>resp_text = Some (str ''[1, 2, 3]''), usageMetadata = None\<rparr>"

definition brokenResponse :: response where
  "brokenResponse = \<lparr>resp_text = Some (str ''Sure! Here is the JSON''), usageMetadata = None\<rparr>"

definition exampleParse :: "js_string \<Rightarrow> thrown + js_string" where
  "exampleParse s =
     (if s = str ''{}'' \<or> s = str ''[1, 2, 3]'' then Inr s
      else Inl (Error (str ''Unexpected token'')))"

text \<open>First a transport fault, then unparseable output, then a good answer.\<close>

definition flakyClient :: "request \<Rightarrow> nat \<Rightarrow> call_outcome" where
  "flakyClient req n =
     (if n = 1 then Throws (Error (str ''fetch failed''))
      else if n = 2 then Returns brokenResponse
      else Returns goodResponse)"

text \<open>The same, with a last answer that reports no usage.\<close>

definition unmeteredClient :: "request \<Rightarrow> nat \<Rightarrow> call_outcome" where
  "unmeteredClient req n =
     (if n = 1 then Throws (Error (str ''fetch failed''))
      else if n = 2 then Returns brokenResponse
      else Returns unmeteredResponse)"

definition brokenClient :: "request \<Rightarrow> nat \<Rightarrow> call_outcome" where
  "brokenClient req n = Returns brokenResponse"


definition exampleWorld :: "(request \<Rightarrow> nat \<Rightarrow> call_outcome) option \<Rightarrow> js_string world" where
  "exampleWorld client =
     \<lparr>aiClient = client, JSON_parse = exampleParse, GEMINI_MODEL = None,
      toFixed4 = (\<lambda>c. if c = 2 then str ''2.0000'' else str ''1.8000''),
      numberToString = (\<lambda>b. str ''2''),
      nullReadMessage = str ''Cannot read properties of null''\<rparr>"

text \<open>
  Arguments of a call. The user prompt ends in the clipboard emoji U+1F4CB, which is two
  code units.
\<close>

definition exampleArgs :: "rat \<Rightarrow> call_args" where
  "exampleArgs spent =
     \<lparr>systemPrompt = str ''You are the Planner.'',
      userPrompt = str ''App: todo '' @ [55357, 56523],
      agentName = Some (str ''plannerAgent''), currentCost = Some spent, tokenBudget = Some 2,
      arg_model = None\<rparr>"

definition exampleRequest :: request where
  "exampleRequest = theRequest (exampleWorld None) (exampleArgs 0)"

section \<open>State reducers (config/state.js)\<close>

subsection \<open>Replace fields\<close>

text \<open>
  An update value that may be \<^verbatim>\<open>null\<close> or \<^verbatim>\<open>undefined\<close> is an option, and
  \<^verbatim>\<open>y ?? d\<close> is \<open>nullish y d\<close>.
\<close>

definition nullish :: "'a option \<Rightarrow> 'a \<Rightarrow> 'a" where
  "nullish y d = (case y of None \<Rightarrow> d | Some v \<Rightarrow> v)"

text \<open>\<^verbatim>\<open>userRequirement: reducer: (_, y) => y ?? ""\<close>\<close>

definition userRequirement_reducer :: "js_string \<Rightarrow> js_string option \<Rightarrow> js_string" where
  "userRequirement_reducer x y = nullish y (str '''')"

definition userRequirement_default :: js_string where
  "userRequirement_default = str ''''"

text \<open>\<^verbatim>\<open>pmStatus: reducer: (_, y) => y ?? "idle"\<close>\<close>

definition pmStatus_reducer :: "js_string \<Rightarrow> js_string option \<Rightarrow> js_string" where
  "pmStatus_reducer x y = nullish y (str ''idle'')"

definition pmStatus_default :: js_string where
  "pmStatus_default = str ''idle''"

text \<open>\<^verbatim>\<open>pmQuestions: reducer: (_, y) => y ?? []\<close>\<close>

definition pmQuestions_reducer :: "js_string list \<Rightarrow> js_string list option \<Rightarrow> js_string list" where
  "pmQuestions_reducer x y = nullish y []"

definition pmQuestions_default :: "js_string list" where
  "pmQuestions_default = []"

text \<open>
  A sequence of updates goes through a field's reducer one after the other, each applied
  to the value the one before left.
\<close>

definition applyUpdates :: "('s \<Rightarrow> 'u \<Rightarrow> 's) \<Rightarrow> 's \<Rightarrow> 'u list \<Rightarrow> 's" where
  "applyUpdates reducer current updates = foldl reducer current updates"

subsection \<open>The file registry\<close>

text \<open>
  An entry of the registry: its \<^verbatim>\<open>path\<close> and the rest of the object (functions, exports,
  dependencies, pattern).
\<close>

record 'i file_entry =
  path :: js_string
  interface :: 'i

text \<open>
  A JavaScript \<^verbatim>\<open>Map\<close> holds its entries in insertion order: \<^verbatim>\<open>set\<close> on a key that is
  present replaces the value where it stands, \<^verbatim>\<open>set\<close> on a new key appends.
\<close>

type_synonym ('k, 'v) js_map = "('k \<times> 'v) list"

fun map_set :: "('k, 'v) js_map \<Rightarrow> 'k \<Rightarrow> 'v \<Rightarrow> ('k, 'v) js_map" where
  "map_set [] k v = [(k, v)]"
| "map_set ((k', v') # m) k v =
     (if k' = k then (k, v) # m else (k', v') # map_set m k v)"

text \<open>\<^verbatim>\<open>new Map(pairs)\<close>\<close>

definition new_Map :: "('k \<times> 'v) list \<Rightarrow> ('k, 'v) js_map" where
  "new_Map pairs = foldl (\<lambda>m (k, v). map_set m k v) [] pairs"

text \<open>\<^verbatim>\<open>Array.from(map.values())\<close>\<close>

definition map_values :: "('k, 'v) js_map \<Rightarrow> 'v list" where
  "map_values m = map snd m"

text \<open>
  What a node can put into the field: a falsy value (\<^verbatim>\<open>undefined\<close>, \<^verbatim>\<open>null\<close>), an
  array of entries, or something else.
\<close>

datatype 'e incoming = Falsy | Array "'e list" | NotAnArray

definition fileRegistry_reducer ::
  "'i file_entry list \<Rightarrow> 'i file_entry incoming \<Rightarrow> 'i file_entry list" where
  "fileRegistry_reducer existing inc =
     (case inc of
        Falsy \<Rightarrow> existing
      | Array entries \<Rightarrow>
          map_values
            (foldl (\<lambda>m entry. map_set m (path entry) entry)
               (new_Map (map (\<lambda>f. (path f, f)) existing)) entries)
      | NotAnArray \<Rightarrow> existing)"

text \<open>
  For stating what the registry holds: the distinct elements of a list in the order in
  which they first appear, and the entry most recently given for a path.
\<close>

definition firstAppearances :: "'a list \<Rightarrow> 'a list" where
  "firstAppearances xs = rev (remdups (rev xs))"

definition latestFor :: "'i file_entry list \<Rightarrow> js_string \<Rightarrow> 'i file_entry option" where
  "latestFor applied p = find (\<lambda>f. path f = p) (rev applied)"

text \<open>The loop \<^verbatim>\<open>for (const entry of incoming) map.set(entry.path, entry)\<close>.\<close>

definition putAll ::
  "(js_string, 'i file_entry) js_map \<Rightarrow> 'i file_entry list \<Rightarrow> (js_string, 'i file_entry) js_map" where
  "putAll m es = foldl (\<lambda>m entry. map_set m (path entry) entry) m es"

subsection \<open>Example entries\<close>

definition entry :: "js_string \<Rightarrow> js_string \<Rightarrow> js_string file_entry" where
  "entry p i = \<lparr>path = p, interface = i\<rparr>"

section \<open>The blueprint validator (agents/blueprintValidator.js)\<close>

subsection \<open>String helpers\<close>

text \<open>
  \<^verbatim>\<open>s.toLowerCase()\<close> follows the case mappings of the Unicode tables, which are not
  reproduced here: the validator takes the method as a parameter, written
  \<open>toLowerCase\<close> in every definition that uses it, and what is proved holds for
  whatever function it is.
\<close>

type_synonym lower_case = "js_string \<Rightarrow> js_string"

definition upperCaseLetters :: js_string where
  "upperCaseLetters = str ''ABCDEFGHIJKLMNOPQRSTUVWXYZ''"

definition lowerCaseLetters :: js_string where
  "lowerCaseLetters = str ''abcdefghijklmnopqrstuvwxyz''"

text \<open>The class \<^verbatim>\<open>\w\<close> of a regular expression without flags: ASCII letters, digits, underscore.\<close>

definition isWordChar :: "nat \<Rightarrow> bool" where
  "isWordChar u = (u \<in> set (upperCaseLetters @ lowerCaseLetters @ str ''0123456789_''))"

text \<open>\<^verbatim>\<open>s.replace(/s$/, "")\<close> and \<^verbatim>\<open>s.replace(/y$/, "ie")\<close>\<close>

definition dropFinalS :: "js_string \<Rightarrow> js_string" where
  "dropFinalS s = (if endsWith s (str ''s'') then butlast s else s)"

definition finalYToIe :: "js_string \<Rightarrow> js_string" where
  "finalYToIe s = (if endsWith s (str ''y'') then butlast s @ str ''ie'' else s)"

text \<open>
  \<^verbatim>\<open>s.match(/^(\w+)\(/)\<close>: the first group when the string starts with one or more
  word characters followed by an opening parenthesis.
\<close>

definition matchTableRef :: "js_string \<Rightarrow> js_string option" where
  "matchTableRef s =
     (if takeWhile isWordChar s \<noteq> [] \<and> startsWith (dropWhile isWordChar s) (str ''('')
      then Some (takeWhile isWordChar s) else None)"

text \<open>\<^verbatim>\<open>s.replace(/\/:\w+/g, "/:param")\<close>; the code unit 47 is the slash.\<close>

function normalizeParams :: "js_string \<Rightarrow> js_string" where
  "normalizeParams [] = []"
| "normalizeParams (c # cs) =
     (if c = 47 \<and> startsWith cs (str '':'') \<and> takeWhile isWordChar (drop 1 cs) \<noteq> []
      then str ''/:param'' @ normalizeParams (dropWhile isWordChar (drop 1 cs))
      else c # normalizeParams cs)"
  by pat_completeness auto
termination
  by (relation "measure length")
     (auto simp: less_Suc_eq_le intro: order_trans[OF length_dropWhile_le])

text \<open>A property inside a template literal, and inside \<^verbatim>\<open>join\<close>.\<close>

definition tpl :: "js_string option \<Rightarrow> js_string" where
  "tpl s = (case s of None \<Rightarrow> str ''undefined'' | Some t \<Rightarrow> t)"

fun joinNames :: "js_string option list \<Rightarrow> js_string" where
  "joinNames [] = []"
| "joinNames [x] = (case x of None \<Rightarrow> [] | Some t \<Rightarrow> t)"
| "joinNames (x # y # ys) = (case x of None \<Rightarrow> [] | Some t \<Rightarrow> t) @ str '', '' @ joinNames (y # ys)"

definition dq :: js_string where
  "dq = [34]"

definition quoted :: "js_string \<Rightarrow> js_string" where
  "quoted s = dq @ s @ dq"

text \<open>A truthy string property: present and not empty.\<close>

definition truthy :: "js_string option \<Rightarrow> bool" where
  "truthy s = (case s of None \<Rightarrow> False | Some t \<Rightarrow> t \<noteq> [])"

subsection \<open>Data\<close>

text \<open>
  The blueprint is what the architect steps parsed out of model output, so any property
  may be missing: \<open>None\<close> is a missing property (\<^verbatim>\<open>undefined\<close>).
\<close>

record entity =
  entity_name :: "js_string option"

record foreign_key =
  references :: "js_string option"

record db_table =
  table_name :: "js_string option"
  foreignKeys :: "foreign_key list option"

record db_schema =
  tables :: "db_table list option"

record endpoint =
  endpoint_method :: "js_string option"
  endpoint_path :: "js_string option"
  relatedTable :: "js_string option"
  endpoint_requiresAuth :: bool

record component =
  component_name :: "js_string option"
  apiCalls :: "js_string list option"

record page =
  page_name :: "js_string option"
  components :: "component list option"
  page_requiresAuth :: bool

record blueprint =
  entities :: "entity list option"
  dbSchema :: "db_schema option"
  apiEndpoints :: "endpoint list option"
  frontendPages :: "page list option"

datatype issue_type =
  missing_table | invalid_foreign_key | orphan_endpoint | missing_api | auth_mismatch
  | orphan_table

datatype severity = error | warning

text \<open>The nodes an issue can send the run back to.\<close>

datatype fix_target = architectStep2 | architectStep3 | architectStep4

record issue =
  issue_type :: issue_type
  severity :: severity
  fixTarget :: fix_target
  issue_message :: js_string

record validation =
  isValid :: bool
  issues :: "issue list option"
  validationCycles :: "nat option"

record agent_state =
  blueprint :: blueprint
  blueprintValidation :: "validation option"

text \<open>The partial update the node returns.\<close>

record validator_update =
  new_blueprintValidation :: validation
  new_currentPhase :: "js_string option"

text \<open>Calling a method on \<^verbatim>\<open>undefined\<close> throws a \<^verbatim>\<open>TypeError\<close>.\<close>

datatype crash = TypeError

subsection \<open>Running code that can throw\<close>

definition bindE :: "crash + 'a \<Rightarrow> ('a \<Rightarrow> crash + 'b) \<Rightarrow> crash + 'b" where
  "bindE r f = (case r of Inl e \<Rightarrow> Inl e | Inr x \<Rightarrow> f x)"

text \<open>A loop or a \<^verbatim>\<open>map\<close> over an array, stopping at the first throw.\<close>

fun mapE :: "('a \<Rightarrow> crash + 'b) \<Rightarrow> 'a list \<Rightarrow> crash + 'b list" where
  "mapE f [] = Inr []"
| "mapE f (x # xs) = bindE (f x) (\<lambda>y. bindE (mapE f xs) (\<lambda>ys. Inr (y # ys)))"

text \<open>A loop whose passes each push some issues.\<close>

definition forEachE :: "('a \<Rightarrow> crash + issue list) \<Rightarrow> 'a list \<Rightarrow> crash + issue list" where
  "forEachE f xs = bindE (mapE f xs) (\<lambda>pushed. Inr (concat pushed))"

text \<open>\<^verbatim>\<open>x.name.toLowerCase()\<close>\<close>

definition nameToLowerCase :: "lower_case \<Rightarrow> js_string option \<Rightarrow> crash + js_string" where
  "nameToLowerCase toLowerCase n =
     (case n of None \<Rightarrow> Inl TypeError | Some s \<Rightarrow> Inr (toLowerCase s))"

text \<open>\<^verbatim>\<open>dbSchema?.tables\<close>\<close>

definition schemaTables :: "blueprint \<Rightarrow> db_table list option" where
  "schemaTables bp = (case dbSchema bp of None \<Rightarrow> None | Some s \<Rightarrow> tables s)"

text \<open>\<^verbatim>\<open>new Set(dbSchema.tables.map(t => t.name.toLowerCase()))\<close>, as the list of its members.\<close>

definition tableNameSet :: "lower_case \<Rightarrow> db_table list \<Rightarrow> crash + js_string list" where
  "tableNameSet toLowerCase tbls = mapE (\<lambda>t. nameToLowerCase toLowerCase (table_name t)) tbls"

subsection \<open>The six checks\<close>

text \<open>Check 1: every entity has a table.\<close>

definition missingTableIssue :: "entity \<Rightarrow> db_table list \<Rightarrow> issue" where
  "missingTableIssue ent tbls =
     \<lparr>issue_type = missing_table, severity = error, fixTarget = architectStep2,
      issue_message =
        str ''Entity '' @ quoted (tpl (entity_name ent)) @ str '' has no matching DB table. Tables: [''
        @ joinNames (map table_name tbls) @ str '']''\<rparr>"

definition check1 :: "lower_case \<Rightarrow> blueprint \<Rightarrow> crash + issue list" where
  "check1 toLowerCase bp =
     (case (entities bp, schemaTables bp) of
        (Some ents, Some tbls) \<Rightarrow>
          bindE (mapE (\<lambda>t. bindE (nameToLowerCase toLowerCase (table_name t)) (\<lambda>n. Inr (dropFinalS n))) tbls)
            (\<lambda>normalized.
          bindE (mapE (\<lambda>t. nameToLowerCase toLowerCase (table_name t)) tbls)
            (\<lambda>exact.
          let tableNames = normalized @ exact in
          forEachE
            (\<lambda>ent.
               bindE (nameToLowerCase toLowerCase (entity_name ent))
                 (\<lambda>entityName.
                    let hasTable =
                          entityName \<in> set tableNames
                          \<or> (entityName @ str ''s'') \<in> set tableNames
                          \<or> (finalYToIe entityName @ str ''s'') \<in> set tableNames
                    in Inr (if \<not> hasTable then [missingTableIssue ent tbls] else [])))
            ents))
      | _ \<Rightarrow> Inr [])"

text \<open>Check 2: foreign keys reference existing tables.\<close>

definition invalidForeignKeyIssue :: "db_table \<Rightarrow> foreign_key \<Rightarrow> js_string \<Rightarrow> issue" where
  "invalidForeignKeyIssue t fk refTable =
     \<lparr>issue_type = invalid_foreign_key, severity = error, fixTarget = architectStep2,
      issue_message =
        str ''Table '' @ quoted (tpl (table_name t)) @ str '' has FK referencing ''
        @ quoted (tpl (references fk)) @ str '' but table '' @ quoted refTable
        @ str '' does not exist.''\<rparr>"

definition check2 :: "lower_case \<Rightarrow> blueprint \<Rightarrow> crash + issue list" where
  "check2 toLowerCase bp =
     (case schemaTables bp of
        Some tbls \<Rightarrow>
          bindE (tableNameSet toLowerCase tbls)
            (\<lambda>names.
          forEachE
            (\<lambda>t. case foreignKeys t of
                   None \<Rightarrow> Inr []
                 | Some fks \<Rightarrow>
                     forEachE
                       (\<lambda>fk. case (case references fk of None \<Rightarrow> None | Some r \<Rightarrow> matchTableRef r) of
                               None \<Rightarrow> Inr []
                             | Some captured \<Rightarrow>
                                 let refTable = toLowerCase captured
                                 in Inr (if refTable \<notin> set names
                                         then [invalidForeignKeyIssue t fk refTable] else []))
                       fks)
            tbls)
      | None \<Rightarrow> Inr [])"

text \<open>Check 3: API endpoints reference existing tables.\<close>

definition orphanEndpointIssue :: "endpoint \<Rightarrow> issue" where
  "orphanEndpointIssue e =
     \<lparr>issue_type = orphan_endpoint, severity = error, fixTarget = architectStep3,
      issue_message =
        str ''API '' @ quoted (tpl (endpoint_method e) @ str '' '' @ tpl (endpoint_path e))
        @ str '' references table '' @ quoted (tpl (relatedTable e))
        @ str '' which doesn'' @ [39] @ str ''t exist.''\<rparr>"

definition check3 :: "lower_case \<Rightarrow> blueprint \<Rightarrow> crash + issue list" where
  "check3 toLowerCase bp =
     (case (apiEndpoints bp, schemaTables bp) of
        (Some eps, Some tbls) \<Rightarrow>
          bindE (tableNameSet toLowerCase tbls)
            (\<lambda>names.
          forEachE
            (\<lambda>e. if truthy (relatedTable e)
                  then let related = toLowerCase (tpl (relatedTable e))
                       in Inr (if related \<notin> set names then [orphanEndpointIssue e] else [])
                  else Inr [])
            eps)
      | _ \<Rightarrow> Inr [])"

text \<open>Check 4: frontend pages reference existing APIs.\<close>

text \<open>The arrow U+2192 of the message.\<close>

definition arrow :: js_string where
  "arrow = [8594]"

definition missingApiIssue :: "page \<Rightarrow> component \<Rightarrow> js_string \<Rightarrow> issue" where
  "missingApiIssue p compo apiCall =
     \<lparr>issue_type = missing_api, severity = warning, fixTarget = architectStep3,
      issue_message =
        str ''Page '' @ quoted (tpl (page_name p)) @ str '' '' @ arrow @ str '' Component ''
        @ quoted (tpl (component_name compo)) @ str '' calls '' @ quoted apiCall
        @ str '' but no matching API endpoint exists.''\<rparr>"

text \<open>
  \<^verbatim>\<open>apiPaths\<close>: the lower-cased \<^verbatim>\<open>path\<close> of every endpoint, \<^verbatim>\<open>undefined\<close> for an
  endpoint without one.
\<close>

definition apiPathsOf :: "lower_case \<Rightarrow> endpoint list \<Rightarrow> js_string option list" where
  "apiPathsOf toLowerCase eps = map (\<lambda>e. map_option toLowerCase (endpoint_path e)) eps"

definition apiCallExists :: "lower_case \<Rightarrow> js_string option list \<Rightarrow> js_string \<Rightarrow> bool" where
  "apiCallExists toLowerCase apiPaths apiCall =
     (let normalized = normalizeParams (toLowerCase apiCall)
      in list_ex
           (\<lambda>path. map_option normalizeParams path = Some normalized
                    \<or> path = Some (toLowerCase apiCall))
           apiPaths)"

definition check4 :: "lower_case \<Rightarrow> blueprint \<Rightarrow> issue list" where
  "check4 toLowerCase bp =
     (case (frontendPages bp, apiEndpoints bp) of
        (Some pages, Some eps) \<Rightarrow>
          concat (map
            (\<lambda>p. case components p of
                   None \<Rightarrow> []
                 | Some comps \<Rightarrow>
                     concat (map
                       (\<lambda>compo. case apiCalls compo of
                                 None \<Rightarrow> []
                               | Some calls \<Rightarrow>
                                   concat (map
                                     (\<lambda>apiCall.
                                        if \<not> apiCallExists toLowerCase (apiPathsOf toLowerCase eps) apiCall
                                        then [missingApiIssue p compo apiCall] else [])
                                     calls))
                       comps))
            pages)
      | _ \<Rightarrow> [])"

text \<open>Check 5: auth consistency.\<close>

definition authMismatchIssue :: "page \<Rightarrow> issue" where
  "authMismatchIssue p =
     \<lparr>issue_type = auth_mismatch, severity = warning, fixTarget = architectStep4,
      issue_message =
        str ''Page '' @ quoted (tpl (page_name p))
        @ str '' calls auth-required API but page.requiresAuth is false.''\<rparr>"

definition authEndpointsOf :: "lower_case \<Rightarrow> endpoint list \<Rightarrow> js_string option list" where
  "authEndpointsOf toLowerCase eps =
     map (\<lambda>e. map_option toLowerCase (endpoint_path e)) (filter endpoint_requiresAuth eps)"

definition check5 :: "lower_case \<Rightarrow> blueprint \<Rightarrow> issue list" where
  "check5 toLowerCase bp =
     (case (apiEndpoints bp, frontendPages bp) of
        (Some eps, Some pages) \<Rightarrow>
          concat (map
            (\<lambda>p. case components p of
                   None \<Rightarrow> []
                 | Some comps \<Rightarrow>
                     concat (map
                       (\<lambda>compo. case apiCalls compo of
                                 None \<Rightarrow> []
                               | Some calls \<Rightarrow>
                                   let callsAuthApi =
                                         list_ex (\<lambda>c. Some (toLowerCase c) \<in> set (authEndpointsOf toLowerCase eps))
                                           calls
                                   in if callsAuthApi \<and> \<not> page_requiresAuth p
                                      then [authMismatchIssue p] else [])
                       comps))
            pages)
      | _ \<Rightarrow> [])"

text \<open>Check 6: no orphan tables.\<close>

definition orphanTableIssue :: "db_table \<Rightarrow> issue" where
  "orphanTableIssue t =
     \<lparr>issue_type = orphan_table, severity = warning, fixTarget = architectStep3,
      issue_message =
        str ''Table '' @ quoted (tpl (table_name t))
        @ str '' exists but no API endpoint references it. Either add endpoints or remove the table.''\<rparr>"

text \<open>
  \<^verbatim>\<open>referencedTables\<close>: the lower-cased \<^verbatim>\<open>relatedTable\<close> of the endpoints, without the
  falsy ones (\<^verbatim>\<open>undefined\<close> and the empty string).
\<close>

definition referencedTablesOf :: "lower_case \<Rightarrow> endpoint list \<Rightarrow> js_string list" where
  "referencedTablesOf toLowerCase eps =
     map tpl (filter truthy (map (\<lambda>e. map_option toLowerCase (relatedTable e)) eps))"

definition isJunction :: "js_string \<Rightarrow> bool" where
  "isJunction name =
     (includes_str name (str ''_'')
      \<and> \<not> list_ex (\<lambda>f. includes_str name f) [str ''created_at'', str ''updated_at''])"

definition check6 :: "lower_case \<Rightarrow> blueprint \<Rightarrow> crash + issue list" where
  "check6 toLowerCase bp =
     (case (schemaTables bp, apiEndpoints bp) of
        (Some tbls, Some eps) \<Rightarrow>
          forEachE
            (\<lambda>t. bindE (nameToLowerCase toLowerCase (table_name t))
                   (\<lambda>name.
                      Inr (if name \<notin> set (referencedTablesOf toLowerCase eps) \<and> \<not> isJunction name
                           then [orphanTableIssue t] else [])))
            tbls
      | _ \<Rightarrow> Inr [])"

text \<open>The checks run in order, each pushing onto the same \<^verbatim>\<open>issues\<close> array.\<close>

definition runChecks :: "lower_case \<Rightarrow> blueprint \<Rightarrow> crash + issue list" where
  "runChecks toLowerCase bp =
     bindE (check1 toLowerCase bp) (\<lambda>i1.
     bindE (check2 toLowerCase bp) (\<lambda>i2.
     bindE (check3 toLowerCase bp) (\<lambda>i3.
     let i4 = check4 toLowerCase bp; i5 = check5 toLowerCase bp in
     bindE (check6 toLowerCase bp) (\<lambda>i6.
     Inr (i1 @ i2 @ i3 @ i4 @ i5 @ i6)))))"

subsection \<open>The decision\<close>

definition MAX_VALIDATION_CYCLES :: nat where
  "MAX_VALIDATION_CYCLES = 2"

text \<open>\<^verbatim>\<open>state.blueprintValidation?.validationCycles || 0\<close>\<close>

definition currentCycles :: "agent_state \<Rightarrow> nat" where
  "currentCycles state =
     (case blueprintValidation state of
        None \<Rightarrow> 0
      | Some v \<Rightarrow> (case validationCycles v of None \<Rightarrow> 0 | Some n \<Rightarrow> n))"

definition decide :: "nat \<Rightarrow> issue list \<Rightarrow> validator_update" where
  "decide cycles found =
     (if length found = 0 then
        \<lparr>new_blueprintValidation =
           \<lparr>isValid = True, issues = Some [], validationCycles = Some (cycles + 1)\<rparr>,
         new_currentPhase = Some (str ''planner'')\<rparr>
      else if cycles \<ge> MAX_VALIDATION_CYCLES then
        \<lparr>new_blueprintValidation =
           \<lparr>isValid = True, issues = Some found, validationCycles = Some (cycles + 1)\<rparr>,
         new_currentPhase = Some (str ''planner'')\<rparr>
      else
        \<lparr>new_blueprintValidation =
           \<lparr>isValid = False, issues = Some found, validationCycles = Some (cycles + 1)\<rparr>,
         new_currentPhase = None\<rparr>)"

definition blueprintValidatorNode :: "lower_case \<Rightarrow> agent_state \<Rightarrow> crash + validator_update" where
  "blueprintValidatorNode toLowerCase state =
     bindE (runChecks toLowerCase (blueprint state))
       (\<lambda>found. Inr (decide (currentCycles state) found))"

subsection \<open>The router\<close>

text \<open>What the router returns: the marker \<^verbatim>\<open>"__end__"\<close> or the name of an architect step.\<close>

datatype route = End | Back fix_target

text \<open>
  \<^verbatim>\<open>targetCounts\<close>: an object used as a counter. Its own string keys are enumerated in
  insertion order, so it is a map in insertion order.
\<close>

definition countTarget :: "(fix_target, nat) js_map \<Rightarrow> fix_target \<Rightarrow> (fix_target, nat) js_map" where
  "countTarget counts t =
     map_set counts t ((case map_of counts t of None \<Rightarrow> 0 | Some n \<Rightarrow> n) + 1)"

definition targetCountsOf :: "fix_target list \<Rightarrow> (fix_target, nat) js_map" where
  "targetCountsOf targets = foldl countTarget [] targets"

text \<open>
  \<^verbatim>\<open>Object.entries(targetCounts).sort((a, b) => b[1] - a[1])[0]?.[0]\<close>: the sort is
  stable and orders by decreasing count.
\<close>

definition topTargetOf :: "(fix_target, nat) js_map \<Rightarrow> fix_target option" where
  "topTargetOf counts =
     (case sort_key (\<lambda>(t, n). - int n) counts of [] \<Rightarrow> None | (t, n) # rest \<Rightarrow> Some t)"

definition blueprintValidatorRouter :: "agent_state \<Rightarrow> route" where
  "blueprintValidatorRouter state =
     (let validation = blueprintValidation state;
          valid = (case validation of None \<Rightarrow> False | Some v \<Rightarrow> isValid v);
          allIssues = (case validation of None \<Rightarrow> None | Some v \<Rightarrow> issues v)
      in if valid then End
         else
           (case filter (\<lambda>i. severity i = error) (case allIssues of None \<Rightarrow> [] | Some is \<Rightarrow> is) of
              e # others \<Rightarrow> Back (fixTarget e)
            | [] \<Rightarrow>
                (let targets = map fixTarget (case allIssues of None \<Rightarrow> [] | Some is \<Rightarrow> is)
                 in case topTargetOf (targetCountsOf targets) of
                      Some topTarget \<Rightarrow> Back topTarget
                    | None \<Rightarrow> End)))"



subsection \<open>Example blueprints\<close>

text \<open>
  The names and paths of the examples are ASCII, and on ASCII strings
  \<^verbatim>\<open>toLowerCase\<close> turns the letters A to Z into a to z and leaves the rest.
\<close>

definition asciiLowerCase :: lower_case where
  "asciiLowerCase s =
     map (\<lambda>u. case map_of (zip upperCaseLetters lowerCaseLetters) u of None \<Rightarrow> u | Some l \<Rightarrow> l) s"

text \<open>The clean blueprint of test 4 of tests/test-validator.js.\<close>

definition cleanBlueprint :: blueprint where
  "cleanBlueprint =
     \<lparr>entities = Some [\<lparr>entity_name = Some (str ''User'')\<rparr>, \<lparr>entity_name = Some (str ''Task'')\<rparr>],
      dbSchema = Some \<lparr>tables = Some
        [\<lparr>table_name = Some (str ''users''), foreignKeys = Some []\<rparr>,
         \<lparr>table_name = Some (str ''tasks''),
          foreignKeys = Some [\<lparr>references = Some (str ''users(id)'')\<rparr>]\<rparr>]\<rparr>,
      apiEndpoints = Some
        [\<lparr>endpoint_method = Some (str ''GET''), endpoint_path = Some (str ''/api/users''),
          relatedTable = Some (str ''users''), endpoint_requiresAuth = True\<rparr>,
         \<lparr>endpoint_method = Some (str ''GET''), endpoint_path = Some (str ''/api/tasks''),
          relatedTable = Some (str ''tasks''), endpoint_requiresAuth = True\<rparr>],
      frontendPages = Some
        [\<lparr>page_name = Some (str ''Dashboard''),
          components = Some [\<lparr>component_name = Some (str ''TaskList''),
                              apiCalls = Some [str ''/api/tasks'']\<rparr>],
          page_requiresAuth = True\<rparr>]\<rparr>"

text \<open>The blueprint of test 5: an entity without a table.\<close>

definition ghostBlueprint :: blueprint where
  "ghostBlueprint =
     \<lparr>entities = Some [\<lparr>entity_name = Some (str ''Ghost'')\<rparr>],
      dbSchema = Some \<lparr>tables = Some []\<rparr>,
      apiEndpoints = Some [],
      frontendPages = Some []\<rparr>"

definition ghostIssue :: issue where
  "ghostIssue =
     \<lparr>issue_type = missing_table, severity = error, fixTarget = architectStep2,
      issue_message = str ''Entity '' @ quoted (str ''Ghost'') @ str '' has no matching DB table. Tables: []''\<rparr>"

text \<open>Blueprints with artifacts missing.\<close>





definition stateAtCycle :: "blueprint \<Rightarrow> nat \<Rightarrow> agent_state" where
  "stateAtCycle bp n =
     \<lparr>blueprint = bp,
      blueprintValidation = Some \<lparr>isValid = False, issues = Some [], validationCycles = Some n\<rparr>\<rparr>"

text \<open>Issues as the router sees them.\<close>

definition issueFor :: "severity \<Rightarrow> fix_target \<Rightarrow> issue" where
  "issueFor sev target =
     \<lparr>issue_type = (if sev = error then orphan_endpoint else orphan_table),
      severity = sev, fixTarget = target, issue_message = str ''''\<rparr>"

definition stateWithIssues :: "issue list option \<Rightarrow> agent_state" where
  "stateWithIssues found =
     \<lparr>blueprint = ghostBlueprint,
      blueprintValidation = Some \<lparr>isValid = False, issues = found, validationCycles = Some 1\<rparr>\<rparr>"

section \<open>Properties of the call adapter\<close>

subsection \<open>Literals\<close>

lemma str_Nil [simp]: "str [] = []"
  by (simp add: str_def)

lemma str_Cons [simp]: "str (c # cs) = of_char c # str cs"
  by (simp add: str_def)

subsection \<open>The retry loop\<close>

lemma issuedCount_append: "issuedCount (xs @ ys) = issuedCount xs + issuedCount ys"
  by (induction xs rule: issuedCount.induct) auto


lemma parse_failed_not_budget: "\<not> isBudgetError (Error (str ''JSON_PARSE_FAILED after 3 attempts.''))"
  by (simp add: isBudgetError_def)


lemma catchBlock_last: "e \<noteq> Null \<Longrightarrow> catchBlock w MAX_RETRIES e = Throw e"
  by (cases e) (simp_all add: catchBlock_def)

lemma catchBlock_retry:
  assumes "e \<noteq> Null" "\<not> isBudgetError e" "attempt \<noteq> MAX_RETRIES"
  shows "catchBlock w attempt e = Next e (Some (2 ^ attempt * 1000))"
  using assms by (cases e) (simp_all add: catchBlock_def)


lemma retryLoop_Next:
  assumes "attempt \<le> MAX_RETRIES"
    and "tryBlock w (contents req) attempt (client req attempt) = Next e wait"
    and "attempt' = attempt + 1"
    and "tr' = tr @ [Issued req] @ (case wait of None \<Rightarrow> [] | Some ms \<Rightarrow> [Waited ms])"
  shows "retryLoop w client req attempt lastError tr = retryLoop w client req attempt' (Some e) tr'"
  using assms by (subst retryLoop.simps) simp

lemma retryLoop_Throw:
  assumes "attempt \<le> MAX_RETRIES"
    and "tryBlock w (contents req) attempt (client req attempt) = Throw e"
  shows "retryLoop w client req attempt lastError tr = (tr @ [Issued req], Inl e)"
  using assms by (subst retryLoop.simps) simp

lemma catchBlock_not_Return: "catchBlock w attempt e \<noteq> Return r"
  by (cases e) (simp_all add: catchBlock_def)

lemma tryBlock_Return:
  assumes "tryBlock w prompt attempt outcome = Return r"
  shows "\<exists>resp p. outcome = Returns resp \<and> JSON_parse w (cleanText (rawText resp)) = Inr p
           \<and> r = \<lparr>parsed = p, raw = rawText resp, result_tokens = measuredTokens prompt resp\<rparr>"
  using assms
  by (auto simp: tryBlock_def catchBlock_not_Return split: call_outcome.splits sum.splits if_splits)

lemma tryBlock_Throws: "tryBlock w prompt attempt (Throws e) = catchBlock w attempt e"
  by (simp add: tryBlock_def)

lemma tryBlock_parsed:
  assumes "JSON_parse w (cleanText (rawText resp)) = Inr p"
  shows "tryBlock w prompt attempt (Returns resp)
           = Return \<lparr>parsed = p, raw = rawText resp, result_tokens = measuredTokens prompt resp\<rparr>"
  using assms by (simp add: tryBlock_def)

lemma tryBlock_unparsed:
  assumes "JSON_parse w (cleanText (rawText resp)) = Inl parseError"
  shows "tryBlock w prompt attempt (Returns resp)
           = (if attempt = MAX_RETRIES
              then Throw (Error (str ''JSON_PARSE_FAILED after 3 attempts.''))
              else Next parseError None)"
  using assms by (simp add: tryBlock_def catchBlock_last)

text \<open>
  The handler of the loop rethrows every error with the marker (lemma \<open>catchBlock_budget\<close>).
  An error with the marker is carried to the next attempt in one case only: when it is the
  error that \<^verbatim>\<open>JSON.parse\<close> raised on the text of a response, which the inner handler
  keeps without a look at its message.
\<close>

lemma retried_marker_is_parse_error:
  assumes "tryBlock w prompt attempt outcome = Next e wait" "isBudgetError e"
  shows "\<exists>resp. outcome = Returns resp \<and> JSON_parse w (cleanText (rawText resp)) = Inl e
           \<and> attempt \<noteq> MAX_RETRIES \<and> wait = None"
proof (cases outcome)
  case (Throws error)
  with assms show ?thesis
    by (cases error) (auto simp: tryBlock_def catchBlock_def split: if_splits)
next
  case (Returns resp)
  with assms show ?thesis
    by (cases "JSON_parse w (cleanText (rawText resp))")
      (auto simp: tryBlock_def catchBlock_last split: if_splits)
qed

lemma retryLoop_success:
  "retryLoop w client req k le tr = (tr', Inr r) \<Longrightarrow> issuedCount tr + 1 = k \<Longrightarrow>
     k \<le> issuedCount tr' \<and> issuedCount tr' \<le> MAX_RETRIES \<and>
     (\<exists>resp p. client req (issuedCount tr') = Returns resp \<and>
        JSON_parse w (cleanText (rawText resp)) = Inr p \<and>
        r = \<lparr>parsed = p, raw = rawText resp, result_tokens = measuredTokens (contents req) resp\<rparr>)"
proof (induction w client req k le tr rule: retryLoop.induct)
  case (1 w client req attempt lastError tr)
  show ?case
  proof (cases "attempt \<le> MAX_RETRIES")
    case False
    with "1.prems" show ?thesis by simp
  next
    case le: True
    show ?thesis
    proof (cases "tryBlock w (contents req) attempt (client req attempt)")
      case (Return r')
      with le "1.prems" have r: "r' = r" "tr' = tr @ [Issued req]" by auto
      from Return obtain resp p where
        "client req attempt = Returns resp" "JSON_parse w (cleanText (rawText resp)) = Inr p"
        "r' = \<lparr>parsed = p, raw = rawText resp, result_tokens = measuredTokens (contents req) resp\<rparr>"
        using tryBlock_Return by blast
      with r le "1.prems" show ?thesis by (auto simp: issuedCount_append)
    next
      case (Throw e)
      with le "1.prems" show ?thesis by simp
    next
      case (Next e wait)
      with le "1.prems" have
        "retryLoop w client req (attempt + 1) (Some e)
           (tr @ [Issued req] @ (case wait of None \<Rightarrow> [] | Some ms \<Rightarrow> [Waited ms])) = (tr', Inr r)"
        by simp
      moreover have "issuedCount (tr @ [Issued req] @ (case wait of None \<Rightarrow> [] | Some ms \<Rightarrow> [Waited ms])) + 1 = attempt + 1"
        using "1.prems" by (auto simp: issuedCount_append split: option.splits)
      ultimately have "attempt + 1 \<le> issuedCount tr' \<and> issuedCount tr' \<le> MAX_RETRIES \<and>
     (\<exists>resp p. client req (issuedCount tr') = Returns resp \<and>
        JSON_parse w (cleanText (rawText resp)) = Inr p \<and>
        r = \<lparr>parsed = p, raw = rawText resp, result_tokens = measuredTokens (contents req) resp\<rparr>)"
        using "1.IH"[OF le Next] by blast
      then show ?thesis by auto
    qed
  qed
qed

subsection \<open>The budget guard\<close>




subsection \<open>Usage accounting\<close>

lemma estimateTokens_spec: "estimateTokens txt = spec_sizeEstimate txt"
proof -
  have "\<lceil>rat_of_nat (length txt) / 4\<rceil> = int ((length txt + 3) div 4)"
    by (simp add: ceiling_unique field_simps)
  then show ?thesis by (simp add: estimateTokens_def spec_sizeEstimate_def)
qed

lemma inputTokens_spec:
  "inputTokens prompt resp = spec_consumption (reportedPromptTokens resp) prompt"
  by (simp add: inputTokens_def spec_consumption_def reportedPromptTokens_def countOr_def
      estimateTokens_spec split: option.splits)

lemma outputTokens_spec:
  "outputTokens resp = spec_consumption (reportedCandidatesTokens resp) (rawText resp)"
  by (simp add: outputTokens_def spec_consumption_def reportedCandidatesTokens_def countOr_def
      estimateTokens_spec split: option.splits)

text \<open>
  Claim C5. When \<^verbatim>\<open>callGemini\<close> returns a result, \<^verbatim>\<open>makeTokenDelta\<close> on its tokens
  is one delta with one call record. Its input count is the prompt count that the response
  of the last attempt reported, or else the size estimate of the prompt; its output count
  is the candidates count that this response reported, or else the size estimate of this
  response's text; its cost is the price of these two counts. The last attempt is the
  attempt whose number is the count of the calls issued. No earlier attempt occurs in it.
\<close>

theorem successful_call_one_delta:
  assumes "callGemini w a = (tr, Inr r)"
  shows "\<exists>client resp p i out.
           aiClient w = Some client
         \<and> 1 \<le> issuedCount tr \<and> issuedCount tr \<le> MAX_RETRIES
         \<and> client (theRequest w a) (issuedCount tr) = Returns resp
         \<and> JSON_parse w (cleanText (rawText resp)) = Inr p
         \<and> i = spec_consumption (reportedPromptTokens resp) (fullPrompt a)
         \<and> out = spec_consumption (reportedCandidatesTokens resp) (rawText resp)
         \<and> makeTokenDelta now nodeName (result_tokens r) =
             \<lparr>newCalls = [\<lparr>agent = nodeName, rec_inputTokens = i, rec_outputTokens = out,
                           timestamp = now\<rparr>],
              addedInput = i, addedOutput = out, addedCost = cost i out\<rparr>"
proof -
  from assms obtain client where c: "aiClient w = Some client"
    and loop: "retryLoop w client (theRequest w a) 1 None [] = (tr, Inr r)"
    by (auto simp: callGemini_def getClient_def split: option.splits if_splits)
  from retryLoop_success[OF loop] obtain resp p where
    n: "1 \<le> issuedCount tr" "issuedCount tr \<le> MAX_RETRIES"
    and resp: "client (theRequest w a) (issuedCount tr) = Returns resp"
    and p: "JSON_parse w (cleanText (rawText resp)) = Inr p"
    and r: "r = \<lparr>parsed = p, raw = rawText resp,
                 result_tokens = measuredTokens (contents (theRequest w a)) resp\<rparr>"
    by auto
  have "contents (theRequest w a) = fullPrompt a" by (simp add: theRequest_def)
  with r have "result_tokens r = measuredTokens (fullPrompt a) resp" by simp
  then have "makeTokenDelta now nodeName (result_tokens r) =
      \<lparr>newCalls = [\<lparr>agent = nodeName,
                    rec_inputTokens = spec_consumption (reportedPromptTokens resp) (fullPrompt a),
                    rec_outputTokens = spec_consumption (reportedCandidatesTokens resp) (rawText resp),
                    timestamp = now\<rparr>],
       addedInput = spec_consumption (reportedPromptTokens resp) (fullPrompt a),
       addedOutput = spec_consumption (reportedCandidatesTokens resp) (rawText resp),
       addedCost = cost (spec_consumption (reportedPromptTokens resp) (fullPrompt a))
                        (spec_consumption (reportedCandidatesTokens resp) (rawText resp))\<rparr>"
    by (simp add: makeTokenDelta_def measuredTokens_def inputTokens_spec outputTokens_spec)
  with c n resp p show ?thesis by blast
qed

text \<open>
  The price of 1 input token and 4 output tokens: the exact value is 0.00000255, and the
  double arithmetic of the source gives 0.0000025499999999999997.
\<close>

lemma cost_rounds: "cost 1 4 = 6021017265658797 / 2 ^ 71 \<and> cost 1 4 \<noteq> 255 / 100000000"
  by code_simp

lemma example_costs:
  "cost 120 30 = 5312662293228351 / 2 ^ 67" "cost 38 3 = 8854437155380585 / 2 ^ 70"
  by code_simp+

lemma example_prompt_length: "length (fullPrompt (exampleArgs spent)) = 149"
  by (simp add: fullPrompt_def exampleArgs_def newline_def)

text \<open>
  A transport fault, then unparseable output, then success on the third attempt: once
  with a response that reports its usage, once with one that does not, so that both
  counts are size estimates (149 code units of prompt, 9 of answer).
\<close>

lemma example_parse:
  "JSON_parse (exampleWorld c) (cleanText (rawText goodResponse)) = Inr (str ''{}'')"
  "JSON_parse (exampleWorld c) (cleanText (rawText unmeteredResponse)) = Inr (str ''[1, 2, 3]'')"
  "JSON_parse (exampleWorld c) (cleanText (rawText brokenResponse))
     = Inl (Error (str ''Unexpected token''))"
  by (simp_all add: exampleWorld_def exampleParse_def cleanText_def rawText_def goodResponse_def
      unmeteredResponse_def brokenResponse_def trim_def isWhiteSpace_def)

lemma example_raw:
  "rawText goodResponse = str ''{}''" "rawText unmeteredResponse = str ''[1, 2, 3]''"
  by (simp_all add: rawText_def goodResponse_def unmeteredResponse_def)

lemma example_measured:
  "measuredTokens prompt goodResponse
     = \<lparr>tok_input = 120, tok_output = 30, tok_cost = 5312662293228351 / 2 ^ 67\<rparr>"
  "measuredTokens (fullPrompt (exampleArgs spent)) unmeteredResponse
     = \<lparr>tok_input = 38, tok_output = 3, tok_cost = 8854437155380585 / 2 ^ 70\<rparr>"
  by (simp_all add: measuredTokens_def inputTokens_def outputTokens_def countOr_def
      reportedPromptTokens_def reportedCandidatesTokens_def goodResponse_def estimateTokens_def
      example_prompt_length rawText_def unmeteredResponse_def example_costs)

lemma example_request:
  "theRequest (exampleWorld c) (exampleArgs spent) = exampleRequest"
  "contents exampleRequest = fullPrompt (exampleArgs spent)"
  by (simp_all add: exampleRequest_def theRequest_def modelName_def exampleWorld_def
      exampleArgs_def fullPrompt_def)

lemma fetch_failed_retried:
  "catchBlock w 1 (Error (str ''fetch failed'')) = Next (Error (str ''fetch failed'')) (Some 2000)"
  by (simp add: catchBlock_def isBudgetError_def MAX_RETRIES_def)

lemma example_run:
  assumes 1: "client exampleRequest 1 = Throws (Error (str ''fetch failed''))"
    and 2: "client exampleRequest 2 = Returns brokenResponse"
    and 3: "client exampleRequest 3 = Returns resp"
    and p: "JSON_parse (exampleWorld (Some client)) (cleanText (rawText resp)) = Inr p"
  shows "callGemini (exampleWorld (Some client)) (exampleArgs 0)
     = ([Issued exampleRequest, Waited 2000, Issued exampleRequest, Issued exampleRequest],
        Inr \<lparr>parsed = p, raw = rawText resp,
             result_tokens = measuredTokens (fullPrompt (exampleArgs 0)) resp\<rparr>)"
proof -
  let ?w = "exampleWorld (Some client)"
  have t1: "tryBlock ?w (contents exampleRequest) 1 (client exampleRequest 1)
              = Next (Error (str ''fetch failed'')) (Some 2000)"
    by (simp only: 1 tryBlock_Throws fetch_failed_retried)
  have t2: "tryBlock ?w (contents exampleRequest) 2 (client exampleRequest 2)
              = Next (Error (str ''Unexpected token'')) None"
    by (simp only: 2 tryBlock_unparsed[OF example_parse(3)]) (simp add: MAX_RETRIES_def)
  have t3: "tryBlock ?w (contents exampleRequest) 3 (client exampleRequest 3)
              = Return \<lparr>parsed = p, raw = rawText resp,
                         result_tokens = measuredTokens (fullPrompt (exampleArgs 0)) resp\<rparr>"
    by (simp only: 3 tryBlock_parsed[OF p] example_request(2)[of 0])
  have "retryLoop ?w client exampleRequest 1 None []
      = retryLoop ?w client exampleRequest 2 (Some (Error (str ''fetch failed'')))
          [Issued exampleRequest, Waited 2000]"
    by (rule retryLoop_Next[where client = client, OF _ t1]) (simp_all add: MAX_RETRIES_def)
  also have "\<dots> = retryLoop ?w client exampleRequest 3 (Some (Error (str ''Unexpected token'')))
          [Issued exampleRequest, Waited 2000, Issued exampleRequest]"
    by (rule retryLoop_Next[where client = client, OF _ t2]) (simp_all add: MAX_RETRIES_def)
  also have "\<dots> = ([Issued exampleRequest, Waited 2000, Issued exampleRequest, Issued exampleRequest],
        Inr \<lparr>parsed = p, raw = rawText resp,
             result_tokens = measuredTokens (fullPrompt (exampleArgs 0)) resp\<rparr>)"
    by (subst retryLoop.simps) (simp add: t3 MAX_RETRIES_def del: retryLoop.simps)
  finally have loop: "retryLoop ?w client exampleRequest 1 None []
      = ([Issued exampleRequest, Waited 2000, Issued exampleRequest, Issued exampleRequest],
        Inr \<lparr>parsed = p, raw = rawText resp,
             result_tokens = measuredTokens (fullPrompt (exampleArgs 0)) resp\<rparr>)" .
  have c: "aiClient ?w = Some client" by (simp add: exampleWorld_def)
  have b: "\<not> effectiveBudget (exampleArgs 0) \<le> effectiveCost (exampleArgs 0)"
    by (simp add: effectiveCost_def effectiveBudget_def exampleArgs_def)
  show ?thesis
    by (simp only: callGemini_def getClient_def c option.case sum.case b if_False
        example_request(1) loop)
qed

lemma flaky_run:
  "callGemini (exampleWorld (Some flakyClient)) (exampleArgs 0)
     = ([Issued exampleRequest, Waited 2000, Issued exampleRequest, Issued exampleRequest],
        Inr \<lparr>parsed = str ''{}'', raw = str ''{}'',
             result_tokens = \<lparr>tok_input = 120, tok_output = 30,
                              tok_cost = 5312662293228351 / 2 ^ 67\<rparr>\<rparr>)"
proof -
  have "flakyClient exampleRequest 1 = Throws (Error (str ''fetch failed''))"
    "flakyClient exampleRequest 2 = Returns brokenResponse"
    "flakyClient exampleRequest 3 = Returns goodResponse"
    by (simp_all add: flakyClient_def)
  from example_run[where client = flakyClient, OF this example_parse(1)] show ?thesis
    by (simp only: example_raw example_measured)
qed

lemma unmetered_run:
  "callGemini (exampleWorld (Some unmeteredClient)) (exampleArgs 0)
     = ([Issued exampleRequest, Waited 2000, Issued exampleRequest, Issued exampleRequest],
        Inr \<lparr>parsed = str ''[1, 2, 3]'', raw = str ''[1, 2, 3]'',
             result_tokens = \<lparr>tok_input = 38, tok_output = 3,
                              tok_cost = 8854437155380585 / 2 ^ 70\<rparr>\<rparr>)"
proof -
  have "unmeteredClient exampleRequest 1 = Throws (Error (str ''fetch failed''))"
    "unmeteredClient exampleRequest 2 = Returns brokenResponse"
    "unmeteredClient exampleRequest 3 = Returns unmeteredResponse"
    by (simp_all add: unmeteredClient_def)
  from example_run[where client = unmeteredClient, OF this example_parse(2)] show ?thesis
    by (simp only: example_raw example_measured)
qed

theorem successful_call_one_delta_witness:
  "callGemini (exampleWorld (Some flakyClient)) (exampleArgs 0)
     = ([Issued exampleRequest, Waited 2000, Issued exampleRequest, Issued exampleRequest],
        Inr \<lparr>parsed = str ''{}'', raw = str ''{}'',
             result_tokens = \<lparr>tok_input = 120, tok_output = 30,
                              tok_cost = 5312662293228351 / 2 ^ 67\<rparr>\<rparr>)
   \<and> makeTokenDelta 1700000000000 (str ''plannerAgent'')
        \<lparr>tok_input = 120, tok_output = 30, tok_cost = 5312662293228351 / 2 ^ 67\<rparr>
     = \<lparr>newCalls = [\<lparr>agent = str ''plannerAgent'', rec_inputTokens = 120,
                      rec_outputTokens = 30, timestamp = 1700000000000\<rparr>],
        addedInput = 120, addedOutput = 30, addedCost = 5312662293228351 / 2 ^ 67\<rparr>
   \<and> callGemini (exampleWorld (Some unmeteredClient)) (exampleArgs 0)
     = ([Issued exampleRequest, Waited 2000, Issued exampleRequest, Issued exampleRequest],
        Inr \<lparr>parsed = str ''[1, 2, 3]'', raw = str ''[1, 2, 3]'',
             result_tokens = \<lparr>tok_input = 38, tok_output = 3,
                              tok_cost = 8854437155380585 / 2 ^ 70\<rparr>\<rparr>)
   \<and> makeTokenDelta 1700000000000 (str ''plannerAgent'')
        \<lparr>tok_input = 38, tok_output = 3, tok_cost = 8854437155380585 / 2 ^ 70\<rparr>
     = \<lparr>newCalls = [\<lparr>agent = str ''plannerAgent'', rec_inputTokens = 38,
                      rec_outputTokens = 3, timestamp = 1700000000000\<rparr>],
        addedInput = 38, addedOutput = 3, addedCost = 8854437155380585 / 2 ^ 70\<rparr>"
proof -
  have n: "issuedCount [Issued exampleRequest, Waited 2000, Issued exampleRequest,
             Issued exampleRequest] = 3"
    by simp
  have size: "spec_sizeEstimate (fullPrompt (exampleArgs 0)) = 38" "spec_sizeEstimate (str ''[1, 2, 3]'') = 3"
    by (simp_all add: estimateTokens_spec[symmetric] estimateTokens_def
        example_prompt_length)
  have measured: "client (theRequest (exampleWorld (Some flakyClient)) (exampleArgs 0)) 3 = Returns resp
      \<Longrightarrow> aiClient (exampleWorld (Some flakyClient)) = Some client
      \<Longrightarrow> spec_consumption (reportedPromptTokens resp) prompt = 120
        \<and> spec_consumption (reportedCandidatesTokens resp) (rawText resp) = 30"
    for client resp prompt
    by (auto simp: exampleWorld_def flakyClient_def spec_consumption_def
        reportedPromptTokens_def reportedCandidatesTokens_def goodResponse_def)
  have estimated: "client (theRequest (exampleWorld (Some unmeteredClient)) (exampleArgs 0)) 3 = Returns resp
      \<Longrightarrow> aiClient (exampleWorld (Some unmeteredClient)) = Some client
      \<Longrightarrow> spec_consumption (reportedPromptTokens resp) (fullPrompt (exampleArgs 0)) = 38
        \<and> spec_consumption (reportedCandidatesTokens resp) (rawText resp) = 3"
    for client resp
    by (auto simp: exampleWorld_def unmeteredClient_def spec_consumption_def
        reportedPromptTokens_def reportedCandidatesTokens_def unmeteredResponse_def rawText_def
        size[simplified])
  from successful_call_one_delta [OF flaky_run, of 1700000000000 "str ''plannerAgent''"]
  have d1: "makeTokenDelta 1700000000000 (str ''plannerAgent'')
        \<lparr>tok_input = 120, tok_output = 30, tok_cost = 5312662293228351 / 2 ^ 67\<rparr>
     = \<lparr>newCalls = [\<lparr>agent = str ''plannerAgent'', rec_inputTokens = 120,
                      rec_outputTokens = 30, timestamp = 1700000000000\<rparr>],
        addedInput = 120, addedOutput = 30, addedCost = cost 120 30\<rparr>"
    unfolding n using measured by fastforce
  from successful_call_one_delta [OF unmetered_run, of 1700000000000 "str ''plannerAgent''"]
  have d2: "makeTokenDelta 1700000000000 (str ''plannerAgent'')
        \<lparr>tok_input = 38, tok_output = 3, tok_cost = 8854437155380585 / 2 ^ 70\<rparr>
     = \<lparr>newCalls = [\<lparr>agent = str ''plannerAgent'', rec_inputTokens = 38,
                      rec_outputTokens = 3, timestamp = 1700000000000\<rparr>],
        addedInput = 38, addedOutput = 3, addedCost = cost 38 3\<rparr>"
    unfolding n using estimated by fastforce
  from d1 d2 flaky_run unmetered_run show ?thesis
    by (simp only: example_costs)
qed

subsection \<open>Exhausted retries\<close>

text \<open>
  Claim C6. With an initialised client and budget left, when the output of each of the
  three attempts fails to parse, \<^verbatim>\<open>callGemini\<close> issues three calls and throws the error
  "JSON_PARSE_FAILED after 3 attempts.", which is the adapter's own error and not one the
  channel threw; the node gets no result, so it builds no usage delta.
\<close>

theorem parse_failures_exhaust_retries:
  assumes client: "aiClient w = Some client"
    and budget: "effectiveCost a < effectiveBudget a"
    and broken: "\<forall>n \<in> {1..MAX_RETRIES}. \<exists>resp. client (theRequest w a) n = Returns resp
                   \<and> isl (JSON_parse w (cleanText (rawText resp)))"
  shows "callGemini w a =
           ([Issued (theRequest w a), Issued (theRequest w a), Issued (theRequest w a)],
            Inl (Error (str ''JSON_PARSE_FAILED after 3 attempts.'')))
       \<and> \<not> isBudgetError (Error (str ''JSON_PARSE_FAILED after 3 attempts.''))
       \<and> nodeTokenUsage now nodeName w a = Inl (Error (str ''JSON_PARSE_FAILED after 3 attempts.''))"
proof -
  let ?req = "theRequest w a"
  have fails: "\<exists>e. tryBlock w (contents ?req) n (client ?req n) =
                 (if n = 3 then Throw (Error (str ''JSON_PARSE_FAILED after 3 attempts.'')) else Next e None)"
    if "n \<in> {1, 2, 3}" for n
  proof -
    from that have "n \<in> {1..MAX_RETRIES}" by (auto simp: MAX_RETRIES_def)
    with broken obtain resp where "client ?req n = Returns resp"
      "isl (JSON_parse w (cleanText (rawText resp)))"
      by blast
    then obtain parseError where "JSON_parse w (cleanText (rawText resp)) = Inl parseError"
      by (auto simp: isl_def)
    from tryBlock_unparsed[OF this] \<open>client ?req n = Returns resp\<close> show ?thesis
      by (auto simp: MAX_RETRIES_def)
  qed
  from fails[of 1] obtain e1 where 1: "tryBlock w (contents ?req) 1 (client ?req 1) = Next e1 None"
    by auto
  from fails[of 2] obtain e2 where 2: "tryBlock w (contents ?req) 2 (client ?req 2) = Next e2 None"
    by auto
  from fails[of 3] have 3: "tryBlock w (contents ?req) 3 (client ?req 3)
      = Throw (Error (str ''JSON_PARSE_FAILED after 3 attempts.''))"
    by auto
  have "retryLoop w client ?req 1 None [] = retryLoop w client ?req 2 (Some e1) [Issued ?req]"
    by (rule retryLoop_Next[where client = client, OF _ 1]) (simp_all add: MAX_RETRIES_def)
  also have "\<dots> = retryLoop w client ?req 3 (Some e2) [Issued ?req, Issued ?req]"
    by (rule retryLoop_Next[where client = client, OF _ 2]) (simp_all add: MAX_RETRIES_def)
  also have "\<dots> = ([Issued ?req, Issued ?req, Issued ?req],
                    Inl (Error (str ''JSON_PARSE_FAILED after 3 attempts.'')))"
    by (rule retryLoop_Throw[where client = client, OF _ 3, THEN trans]) (simp_all add: MAX_RETRIES_def)
  finally have one: "retryLoop w client ?req 1 None []
      = ([Issued ?req, Issued ?req, Issued ?req], Inl (Error (str ''JSON_PARSE_FAILED after 3 attempts.'')))" .
  from client budget one have "callGemini w a =
      ([Issued ?req, Issued ?req, Issued ?req], Inl (Error (str ''JSON_PARSE_FAILED after 3 attempts.'')))"
    by (simp add: callGemini_def getClient_def)
  with parse_failed_not_budget show ?thesis
    by (simp only: nodeTokenUsage_def snd_conv sum.case simp_thms)
qed

theorem parse_failures_exhaust_retries_witness:
  "aiClient (exampleWorld (Some brokenClient)) = Some brokenClient
   \<and> effectiveCost (exampleArgs (9 / 5)) < effectiveBudget (exampleArgs (9 / 5))
   \<and> brokenClient exampleRequest 1 = Returns brokenResponse
   \<and> brokenClient exampleRequest 2 = Returns brokenResponse
   \<and> brokenClient exampleRequest 3 = Returns brokenResponse
   \<and> JSON_parse (exampleWorld (Some brokenClient)) (cleanText (rawText brokenResponse))
       = Inl (Error (str ''Unexpected token''))
   \<and> callGemini (exampleWorld (Some brokenClient)) (exampleArgs (9 / 5))
       = ([Issued exampleRequest, Issued exampleRequest, Issued exampleRequest],
          Inl (Error (str ''JSON_PARSE_FAILED after 3 attempts.'')))
   \<and> nodeTokenUsage 1700000000000 (str ''plannerAgent'') (exampleWorld (Some brokenClient))
         (exampleArgs (9 / 5))
       = Inl (Error (str ''JSON_PARSE_FAILED after 3 attempts.''))"
proof -
  have h1: "aiClient (exampleWorld (Some brokenClient)) = Some brokenClient"
    by (simp add: exampleWorld_def)
  have h2: "effectiveCost (exampleArgs (9 / 5)) < effectiveBudget (exampleArgs (9 / 5))"
    by (simp add: effectiveCost_def effectiveBudget_def exampleArgs_def)
  have p: "JSON_parse (exampleWorld (Some brokenClient)) (cleanText (rawText brokenResponse))
       = Inl (Error (str ''Unexpected token''))"
    by (rule example_parse)
  have h3: "\<forall>n \<in> {1..MAX_RETRIES}. \<exists>resp.
      brokenClient (theRequest (exampleWorld (Some brokenClient)) (exampleArgs (9 / 5))) n = Returns resp
      \<and> isl (JSON_parse (exampleWorld (Some brokenClient)) (cleanText (rawText resp)))"
    by (simp add: brokenClient_def p)
  have r: "theRequest (exampleWorld (Some brokenClient)) (exampleArgs (9 / 5)) = exampleRequest"
    by (rule example_request)
  have bc: "brokenClient exampleRequest n = Returns brokenResponse" for n
    by (simp add: brokenClient_def)
  from parse_failures_exhaust_retries [OF h1 h2 h3, of 1700000000000 "(str ''plannerAgent'')"] h1 h2 p
  show ?thesis by (simp add: r bc)
qed

text \<open>
  For comparison, when the channel fails on all three attempts, what is thrown is the
  value the third call threw.
\<close>

lemma channel_failure_is_rethrown:
  assumes client: "aiClient w = Some client" and budget: "effectiveCost a < effectiveBudget a"
    and c1: "client (theRequest w a) 1 = Throws e1" "\<not> isBudgetError e1" "e1 \<noteq> Null"
    and c2: "client (theRequest w a) 2 = Throws e2" "\<not> isBudgetError e2" "e2 \<noteq> Null"
    and c3: "client (theRequest w a) 3 = Throws e3" "e3 \<noteq> Null"
  shows "callGemini w a =
           ([Issued (theRequest w a), Waited 2000, Issued (theRequest w a), Waited 4000,
             Issued (theRequest w a)], Inl e3)"
proof -
  let ?req = "theRequest w a"
  have t1: "tryBlock w (contents ?req) 1 (client ?req 1) = Next e1 (Some 2000)"
    using c1 by (simp add: tryBlock_Throws catchBlock_retry MAX_RETRIES_def)
  have t2: "tryBlock w (contents ?req) 2 (client ?req 2) = Next e2 (Some 4000)"
    using c2 by (simp add: tryBlock_Throws catchBlock_retry MAX_RETRIES_def)
  have t3: "tryBlock w (contents ?req) 3 (client ?req 3) = Throw e3"
    using c3 catchBlock_last[of e3 w] by (simp add: tryBlock_Throws MAX_RETRIES_def)
  have "retryLoop w client ?req 1 None []
      = retryLoop w client ?req 2 (Some e1) [Issued ?req, Waited 2000]"
    by (rule retryLoop_Next[where client = client, OF _ t1]) (simp_all add: MAX_RETRIES_def)
  also have "\<dots> = retryLoop w client ?req 3 (Some e2)
      [Issued ?req, Waited 2000, Issued ?req, Waited 4000]"
    by (rule retryLoop_Next[where client = client, OF _ t2]) (simp_all add: MAX_RETRIES_def)
  also have "\<dots> = ([Issued ?req, Waited 2000, Issued ?req, Waited 4000, Issued ?req], Inl e3)"
    by (rule retryLoop_Throw[where client = client, OF _ t3, THEN trans]) (simp_all add: MAX_RETRIES_def)
  finally have one: "retryLoop w client ?req 1 None []
      = ([Issued ?req, Waited 2000, Issued ?req, Waited 4000, Issued ?req], Inl e3)" .
  from client budget one show ?thesis
    by (simp add: callGemini_def getClient_def)
qed

section \<open>Properties of the reducers\<close>

subsection \<open>Insertion-ordered maps\<close>

lemma firstAppearances_snoc:
  "firstAppearances (xs @ [x]) = (if x \<in> set xs then firstAppearances xs else firstAppearances xs @ [x])"
  by (simp add: firstAppearances_def)

lemma keys_map_set:
  "map fst (map_set m k v) = (if k \<in> fst ` set m then map fst m else map fst m @ [k])"
  by (induction m k v rule: map_set.induct) auto

lemma map_of_map_set: "map_of (map_set m k v) = (map_of m)(k \<mapsto> v)"
  by (induction m k v rule: map_set.induct) auto

lemma new_Map_putAll: "new_Map (map (\<lambda>f. (path f, f)) es) = putAll [] es"
proof -
  have "foldl (\<lambda>m (k, v). map_set m k v) m (map (\<lambda>f. (path f, f)) es) = putAll m es" for m
    by (induction es arbitrary: m) (auto simp: putAll_def)
  then show ?thesis by (simp add: new_Map_def)
qed

lemma reducer_putAll:
  "fileRegistry_reducer existing (Array es) = map snd (putAll [] (existing @ es))"
  by (simp add: fileRegistry_reducer_def new_Map_putAll map_values_def putAll_def)

lemma keys_putAll: "map fst (putAll [] es) = firstAppearances (map path es)"
proof (induction es rule: rev_induct)
  case Nil
  show ?case by (simp add: putAll_def firstAppearances_def)
next
  case (snoc e es)
  have "putAll [] (es @ [e]) = map_set (putAll [] es) (path e) e"
    by (simp add: putAll_def)
  moreover have "set (firstAppearances (map path es)) = path ` set es"
    by (simp add: firstAppearances_def)
  ultimately show ?case
    using snoc by (simp add: keys_map_set firstAppearances_snoc) (metis list.set_map)
qed

lemma map_of_putAll: "map_of (putAll [] es) p = latestFor es p"
proof (induction es rule: rev_induct)
  case Nil
  show ?case by (simp add: putAll_def latestFor_def)
next
  case (snoc e es)
  have "putAll [] (es @ [e]) = map_set (putAll [] es) (path e) e"
    by (simp add: putAll_def)
  with snoc show ?case by (simp add: map_of_map_set latestFor_def)
qed

lemma distinct_firstAppearances: "distinct (firstAppearances xs)"
  by (simp add: firstAppearances_def)

lemma putAll_keys_paths: "(k, v) \<in> set (putAll [] es) \<Longrightarrow> k = path v"
proof (induction es arbitrary: k v rule: rev_induct)
  case Nil
  then show ?case by (simp add: putAll_def)
next
  case (snoc e es)
  have step: "(k, v) \<in> set (map_set m k' v') \<Longrightarrow> (k, v) \<in> set m \<or> (k, v) = (k', v')" for m k' v'
    by (induction m k' v' rule: map_set.induct) (auto split: if_splits)
  have "putAll [] (es @ [e]) = map_set (putAll [] es) (path e) e"
    by (simp add: putAll_def)
  with snoc.prems step have "(k, v) \<in> set (putAll [] es) \<or> (k, v) = (path e, e)" by metis
  with snoc.IH show ?case by auto
qed

lemma putAll_idem:
  assumes "distinct (map fst m)" "\<forall>(k, v) \<in> set m. k = path v"
  shows "putAll m0 (map snd m) = foldl (\<lambda>m (k, v). map_set m k v) m0 m"
  using assms
  by (induction m arbitrary: m0) (auto simp: putAll_def)

lemma map_set_fresh: "k \<notin> fst ` set m \<Longrightarrow> map_set m k v = m @ [(k, v)]"
  by (induction m k v rule: map_set.induct) auto

lemma rebuild:
  assumes "distinct (map fst m)"
  shows "foldl (\<lambda>m (k, v). map_set m k v) [] m = m"
  using assms
proof (induction m rule: rev_induct)
  case Nil
  show ?case by simp
next
  case (snoc kv m)
  obtain k v where kv: "kv = (k, v)" by (cases kv)
  from snoc.prems kv have "k \<notin> fst ` set m" "distinct (map fst m)" by auto
  with snoc.IH kv show ?case by (simp add: map_set_fresh)
qed

lemma putAll_of_values:
  "putAll [] (map snd (putAll [] es)) = putAll [] es"
proof -
  have d: "distinct (map fst (putAll [] es))"
    by (simp add: keys_putAll distinct_firstAppearances)
  have "\<forall>(k, v) \<in> set (putAll [] es). k = path v"
    using putAll_keys_paths by fastforce
  with d show ?thesis
    by (simp add: putAll_idem rebuild)
qed

lemma putAll_append: "putAll m (xs @ ys) = putAll (putAll m xs) ys"
  by (simp add: putAll_def)

lemma registry_run:
  "us \<noteq> [] \<Longrightarrow> applyUpdates fileRegistry_reducer existing (map Array us) = map snd (putAll [] (existing @ concat us))"
proof (induction us rule: rev_induct)
  case Nil
  then show ?case by simp
next
  case (snoc u us)
  show ?case
  proof (cases "us = []")
    case True
    then show ?thesis by (simp add: applyUpdates_def reducer_putAll)
  next
    case False
    with snoc.IH have "applyUpdates fileRegistry_reducer existing (map Array us)
        = map snd (putAll [] (existing @ concat us))" by simp
    then have "applyUpdates fileRegistry_reducer existing (map Array (us @ [u]))
        = map snd (putAll [] (map snd (putAll [] (existing @ concat us)) @ u))"
      by (simp add: applyUpdates_def reducer_putAll)
    also have "putAll [] (map snd (putAll [] (existing @ concat us)) @ u)
        = putAll (putAll [] (map snd (putAll [] (existing @ concat us)))) u"
      by (rule putAll_append)
    also have "\<dots> = putAll (putAll [] (existing @ concat us)) u"
      by (simp only: putAll_of_values)
    also have "\<dots> = putAll [] ((existing @ concat us) @ u)"
      by (rule putAll_append[symmetric])
    finally show ?thesis by simp
  qed
qed

lemma putAll_distinct_pairs:
  assumes "distinct (map path es)"
  shows "putAll [] es = map (\<lambda>f. (path f, f)) es"
proof -
  have "distinct (map fst (map (\<lambda>f. (path f, f)) es))"
    using assms by (simp add: comp_def)
  from rebuild[OF this] show ?thesis
    using new_Map_putAll[of es] by (simp add: new_Map_def)
qed

lemma registry_final:
  assumes "us \<noteq> [] \<or> distinct (map path existing)"
  shows "applyUpdates fileRegistry_reducer existing (map Array us)
           = map snd (putAll [] (existing @ concat us))"
proof (cases "us = []")
  case False
  then show ?thesis by (rule registry_run)
next
  case True
  with assms have "distinct (map path existing)" by simp
  with True show ?thesis
    by (simp add: applyUpdates_def putAll_distinct_pairs comp_def)
qed

lemma values_paths: "map path (map snd (putAll [] es)) = map fst (putAll [] es)"
proof -
  have "\<forall>x \<in> set (putAll [] es). path (snd x) = fst x"
    using putAll_keys_paths by fastforce
  then show ?thesis by simp
qed

subsection \<open>The file registry\<close>

text \<open>
  Claim C8. After a sequence of array updates (non-empty, or applied to a registry whose
  paths are distinct, as the default \<open>[]\<close> is) the registry lists the paths of all the
  entries applied, each once and in order of first appearance, and the entry it holds for
  a path is the one most recently applied for that path.
\<close>

theorem fileRegistry_keyed_upsert:
  assumes "us \<noteq> [] \<or> distinct (map path existing)"
  shows "map path (applyUpdates fileRegistry_reducer existing (map Array us))
           = firstAppearances (map path (existing @ concat us))
       \<and> distinct (map path (applyUpdates fileRegistry_reducer existing (map Array us)))
       \<and> (\<forall>e \<in> set (applyUpdates fileRegistry_reducer existing (map Array us)).
             latestFor (existing @ concat us) (path e) = Some e)"
proof -
  let ?applied = "existing @ concat us"
  let ?m = "putAll [] ?applied"
  have final: "applyUpdates fileRegistry_reducer existing (map Array us) = map snd ?m"
    by (rule registry_final[OF assms])
  have paths: "map path (map snd ?m) = firstAppearances (map path ?applied)"
    by (simp only: values_paths keys_putAll)
  have d: "distinct (map fst ?m)"
    by (simp only: keys_putAll distinct_firstAppearances)
  have "latestFor ?applied (path e) = Some e" if "e \<in> set (map snd ?m)" for e
  proof -
    from that obtain k where "(k, e) \<in> set ?m" by auto
    moreover from this have "k = path e" by (rule putAll_keys_paths)
    ultimately have "map_of ?m (path e) = Some e"
      using d by (auto intro: map_of_is_SomeI)
    then show ?thesis by (simp only: map_of_putAll)
  qed
  with paths show ?thesis
    unfolding final by (simp add: distinct_firstAppearances)
qed

text \<open>Two updates; the second one replaces the entry of a.js and adds c.js.\<close>

lemma registry_example:
  "applyUpdates fileRegistry_reducer []
     (map Array [[entry (str ''a.js'') (str ''v1''), entry (str ''b.js'') (str ''v1'')],
                 [entry (str ''c.js'') (str ''v1''), entry (str ''a.js'') (str ''v2'')]])
   = [entry (str ''a.js'') (str ''v2''), entry (str ''b.js'') (str ''v1''), entry (str ''c.js'') (str ''v1'')]"
  by (simp add: applyUpdates_def fileRegistry_reducer_def new_Map_def map_values_def entry_def)

theorem fileRegistry_keyed_upsert_witness:
  "[[entry (str ''a.js'') (str ''v1''), entry (str ''b.js'') (str ''v1'')],
    [entry (str ''c.js'') (str ''v1''), entry (str ''a.js'') (str ''v2'')]] \<noteq> []
   \<and> applyUpdates fileRegistry_reducer []
        (map Array [[entry (str ''a.js'') (str ''v1''), entry (str ''b.js'') (str ''v1'')],
                    [entry (str ''c.js'') (str ''v1''), entry (str ''a.js'') (str ''v2'')]])
      = [entry (str ''a.js'') (str ''v2''), entry (str ''b.js'') (str ''v1''), entry (str ''c.js'') (str ''v1'')]
   \<and> firstAppearances [str ''a.js'', str ''b.js'', str ''c.js'', str ''a.js''] = [str ''a.js'', str ''b.js'', str ''c.js'']
   \<and> latestFor [entry (str ''a.js'') (str ''v1''), entry (str ''b.js'') (str ''v1''), entry (str ''c.js'') (str ''v1''),
                 entry (str ''a.js'') (str ''v2'')] (str ''a.js'') = Some (entry (str ''a.js'') (str ''v2''))"
proof -
  let ?us = "[[entry (str ''a.js'') (str ''v1''), entry (str ''b.js'') (str ''v1'')],
             [entry (str ''c.js'') (str ''v1''), entry (str ''a.js'') (str ''v2'')]]"
  have h: "?us \<noteq> [] \<or> distinct (map path ([] :: js_string file_entry list))" by simp
  have p: "map path ([] @ concat ?us) = [str ''a.js'', str ''b.js'', str ''c.js'', str ''a.js'']"
    by (simp add: entry_def)
  from fileRegistry_keyed_upsert[OF h] registry_example
  show ?thesis
    by (simp add: p) (simp add: entry_def)
qed

subsection \<open>Replace fields\<close>

text \<open>
  Claim C7, as amended. The claim says that a null update keeps the current value. The
  Replace reducers are \<^verbatim>\<open>(_, y) => y ?? d\<close> with \<open>d\<close> the default of the field: they
  never read the current value. What holds: after a non-empty sequence of updates the field
  holds the last update when that is not null, and the default of the field when it is.
\<close>

theorem replace_reducer_last_update:
  "applyUpdates userRequirement_reducer r (us @ [u]) = nullish u userRequirement_default
   \<and> applyUpdates pmStatus_reducer st (ss @ [s]) = nullish s pmStatus_default
   \<and> applyUpdates pmQuestions_reducer q (qs @ [q']) = nullish q' pmQuestions_default"
  by (simp add: applyUpdates_def userRequirement_reducer_def userRequirement_default_def
      pmStatus_reducer_def pmStatus_default_def pmQuestions_reducer_def pmQuestions_default_def)

text \<open>
  Claim C7 as stated fails: \<^verbatim>\<open>pmStatus\<close> holds "spec_ready", a null update arrives, and
  the field holds "idle".
\<close>

theorem replace_null_update_counterexample:
  "applyUpdates pmStatus_reducer pmStatus_default [Some (str ''spec_ready''), None] = str ''idle''
   \<and> pmStatus_reducer (str ''spec_ready'') None = str ''idle''
   \<and> (str ''idle'') \<noteq> str ''spec_ready''"
  by (simp add: applyUpdates_def pmStatus_reducer_def nullish_def pmStatus_default_def)

section \<open>Properties of the validator\<close>

subsection \<open>When the checks return\<close>









subsection \<open>Absent artifacts\<close>





subsection \<open>The decision\<close>

text \<open>
  Claim C2. When the checks find issues and the cycle count is already at or above
  \<open>MAX_VALIDATION_CYCLES = 2\<close>, the validator reports \<open>isValid = True\<close> and returns
  the list of the issues found, all of them and in order, with the cycle count incremented.
\<close>

theorem forced_pass_keeps_issues:
  assumes "runChecks toLowerCase (blueprint s) = Inr found" and "found \<noteq> []"
    and "currentCycles s \<ge> MAX_VALIDATION_CYCLES"
  shows "blueprintValidatorNode toLowerCase s =
           Inr \<lparr>new_blueprintValidation =
                  \<lparr>isValid = True, issues = Some found,
                   validationCycles = Some (currentCycles s + 1)\<rparr>,
                new_currentPhase = Some (str ''planner'')\<rparr>"
  using assms by (simp add: blueprintValidatorNode_def bindE_def decide_def)

text \<open>Test 5 of tests/test-validator.js: one issue, cycle count 2.\<close>

lemma ghost_checks: "runChecks asciiLowerCase ghostBlueprint = Inr [ghostIssue]"
  by code_simp

theorem forced_pass_keeps_issues_witness:
  "runChecks asciiLowerCase (blueprint (stateAtCycle ghostBlueprint 2)) = Inr [ghostIssue]
   \<and> [ghostIssue] \<noteq> []
   \<and> MAX_VALIDATION_CYCLES \<le> currentCycles (stateAtCycle ghostBlueprint 2)
   \<and> blueprintValidatorNode asciiLowerCase (stateAtCycle ghostBlueprint 2) =
       Inr \<lparr>new_blueprintValidation =
              \<lparr>isValid = True, issues = Some [ghostIssue], validationCycles = Some 3\<rparr>,
            new_currentPhase = Some (str ''planner'')\<rparr>"
proof -
  have h1: "runChecks asciiLowerCase (blueprint (stateAtCycle ghostBlueprint 2)) = Inr [ghostIssue]"
    by (simp add: stateAtCycle_def ghost_checks)
  have h2: "[ghostIssue] \<noteq> []" by simp
  have c: "currentCycles (stateAtCycle ghostBlueprint 2) = 2"
    by (simp add: currentCycles_def stateAtCycle_def)
  have h3: "MAX_VALIDATION_CYCLES \<le> currentCycles (stateAtCycle ghostBlueprint 2)"
    by (simp add: c MAX_VALIDATION_CYCLES_def)
  from forced_pass_keeps_issues[OF h1 h2 h3] h1 h3 show ?thesis by (simp add: c)
qed

text \<open>
  Claim C4. When every one of the six checks finds nothing, the validator reports
  \<open>isValid = True\<close> with an empty issue list.
\<close>

theorem no_defects_is_valid:
  assumes "check1 toLowerCase (blueprint s) = Inr []" "check2 toLowerCase (blueprint s) = Inr []"
    "check3 toLowerCase (blueprint s) = Inr []" "check4 toLowerCase (blueprint s) = []" "check5 toLowerCase (blueprint s) = []"
    "check6 toLowerCase (blueprint s) = Inr []"
  shows "blueprintValidatorNode toLowerCase s =
           Inr \<lparr>new_blueprintValidation =
                  \<lparr>isValid = True, issues = Some [],
                   validationCycles = Some (currentCycles s + 1)\<rparr>,
                new_currentPhase = Some (str ''planner'')\<rparr>"
  using assms by (simp add: blueprintValidatorNode_def runChecks_def bindE_def decide_def)

text \<open>Test 4 of tests/test-validator.js: the clean blueprint.\<close>

lemma clean_checks:
  "check1 asciiLowerCase cleanBlueprint = Inr []" "check2 asciiLowerCase cleanBlueprint = Inr []"
  "check3 asciiLowerCase cleanBlueprint = Inr []" "check4 asciiLowerCase cleanBlueprint = []" "check5 asciiLowerCase cleanBlueprint = []"
  "check6 asciiLowerCase cleanBlueprint = Inr []"
  by code_simp+

theorem no_defects_is_valid_witness:
  "check1 asciiLowerCase cleanBlueprint = Inr [] \<and> check2 asciiLowerCase cleanBlueprint = Inr []
   \<and> check3 asciiLowerCase cleanBlueprint = Inr [] \<and> check4 asciiLowerCase cleanBlueprint = []
   \<and> check5 asciiLowerCase cleanBlueprint = [] \<and> check6 asciiLowerCase cleanBlueprint = Inr []
   \<and> blueprintValidatorNode asciiLowerCase (stateAtCycle cleanBlueprint 0) =
       Inr \<lparr>new_blueprintValidation =
              \<lparr>isValid = True, issues = Some [], validationCycles = Some 1\<rparr>,
            new_currentPhase = Some (str ''planner'')\<rparr>"
proof -
  have b: "blueprint (stateAtCycle cleanBlueprint 0) = cleanBlueprint"
    by (simp add: stateAtCycle_def)
  have c: "currentCycles (stateAtCycle cleanBlueprint 0) = 0"
    by (simp add: currentCycles_def stateAtCycle_def)
  from no_defects_is_valid[of asciiLowerCase "stateAtCycle cleanBlueprint 0"] clean_checks
  show ?thesis by (simp add: b c)
qed

section \<open>Properties of the router\<close>

subsection \<open>Counting targets\<close>

lemma distinct_map_set: "distinct (map fst m) \<Longrightarrow> distinct (map fst (map_set m k v))"
  by (simp add: keys_map_set)

lemma targetCounts_snoc:
  "targetCountsOf (ts @ [t]) = countTarget (targetCountsOf ts) t"
  by (simp add: targetCountsOf_def)

lemma targetCounts_distinct: "distinct (map fst (targetCountsOf ts))"
  by (induction ts rule: rev_induct)
    (simp_all add: targetCounts_snoc countTarget_def distinct_map_set, simp add: targetCountsOf_def)

lemma targetCounts_lookup:
  "map_of (targetCountsOf ts) t = (if t \<in> set ts then Some (count_list ts t) else None)"
proof (induction ts rule: rev_induct)
  case Nil
  show ?case by (simp add: targetCountsOf_def)
next
  case (snoc x ts)
  then show ?case
    by (auto simp: targetCounts_snoc countTarget_def map_of_map_set)
qed

lemma targetCounts_entry:
  "(t, n) \<in> set (targetCountsOf ts) \<longleftrightarrow> t \<in> set ts \<and> n = count_list ts t"
proof -
  have "(t, n) \<in> set (targetCountsOf ts) \<longleftrightarrow> map_of (targetCountsOf ts) t = Some n"
    using targetCounts_distinct[of ts] by (auto intro: map_of_is_SomeI dest: map_of_SomeD)
  then show ?thesis by (auto simp: targetCounts_lookup)
qed

lemma sort_key_head:
  assumes "sort_key f xs = y # ys"
  shows "y \<in> set xs \<and> (\<forall>x \<in> set xs. f y \<le> f x)"
proof -
  have "set (sort_key f xs) = set xs" by simp
  with assms have s: "set xs = insert y (set ys)" by auto
  have "sorted (map f (sort_key f xs))" by (rule sorted_sort_key)
  with assms have "\<forall>x \<in> set ys. f y \<le> f x" by auto
  with s show ?thesis by auto
qed

lemma topTarget_majority:
  assumes "ts \<noteq> []"
  shows "\<exists>t \<in> set ts. topTargetOf (targetCountsOf ts) = Some t
           \<and> (\<forall>t'. count_list ts t' \<le> count_list ts t)"
proof -
  from assms obtain t0 where "t0 \<in> set ts" by (cases ts) auto
  then have "(t0, count_list ts t0) \<in> set (targetCountsOf ts)"
    by (simp add: targetCounts_entry)
  then have "sort_key (\<lambda>(t, n). - int n) (targetCountsOf ts) \<noteq> []"
    by (metis empty_iff list.set(1) set_sort)
  then obtain t n rest where
    srt: "sort_key (\<lambda>(t, n). - int n) (targetCountsOf ts) = (t, n) # rest"
    by (cases "sort_key (\<lambda>(t, n). - int n) (targetCountsOf ts)") auto
  from sort_key_head[OF srt] have mem: "(t, n) \<in> set (targetCountsOf ts)"
    and least: "\<forall>x \<in> set (targetCountsOf ts). (\<lambda>(t, n). - int n) (t, n) \<le> (\<lambda>(t, n). - int n) x"
    by auto
  from mem have t: "t \<in> set ts" and n: "n = count_list ts t"
    by (simp_all add: targetCounts_entry)
  have "count_list ts t' \<le> count_list ts t" for t'
  proof (cases "t' \<in> set ts")
    case True
    then have "(t', count_list ts t') \<in> set (targetCountsOf ts)"
      by (simp add: targetCounts_entry)
    with least n show ?thesis by fastforce
  next
    case False
    then show ?thesis by (simp add: count_list_0_iff)
  qed
  with t srt show ?thesis by (auto simp: topTargetOf_def)
qed

lemma filter_first:
  assumes "P e" "\<forall>i \<in> set pre. \<not> P i"
  shows "filter P (pre @ e # post) = e # filter P post"
  using assms by (induction pre) auto

subsection \<open>Route selection\<close>

text \<open>
  Claim C3. For a validation result that did not pass: when the list has an
  error-severity issue, the router returns the \<open>fixTarget\<close> of the first one; when the
  list is not empty and holds warnings only, the router returns a \<open>fixTarget\<close> of the
  list that no other target outnumbers.
\<close>

theorem router_target_selection:
  assumes v: "blueprintValidation s = Some v" and invalid: "\<not> isValid v"
    and found: "issues v = Some found"
  shows "(\<forall>pre e post. found = pre @ e # post \<and> severity e = error
             \<and> (\<forall>i \<in> set pre. severity i \<noteq> error)
           \<longrightarrow> blueprintValidatorRouter s = Back (fixTarget e))
       \<and> (found \<noteq> [] \<and> (\<forall>i \<in> set found. severity i = warning)
           \<longrightarrow> (\<exists>t \<in> fixTarget ` set found.
                  blueprintValidatorRouter s = Back t
                  \<and> (\<forall>t'. count_list (map fixTarget found) t'
                            \<le> count_list (map fixTarget found) t)))"
proof (intro conjI allI impI)
  fix pre e post
  assume a: "found = pre @ e # post \<and> severity e = error \<and> (\<forall>i \<in> set pre. severity i \<noteq> error)"
  then have "filter (\<lambda>i. severity i = error) found = e # filter (\<lambda>i. severity i = error) post"
    using filter_first[of "\<lambda>i. severity i = error" e pre post] by simp
  with v invalid found show "blueprintValidatorRouter s = Back (fixTarget e)"
    by (simp add: blueprintValidatorRouter_def)
next
  assume a: "found \<noteq> [] \<and> (\<forall>i \<in> set found. severity i = warning)"
  then have noerr: "filter (\<lambda>i. severity i = error) found = []"
    by (auto simp: filter_empty_conv)
  from a have "map fixTarget found \<noteq> []" by simp
  from topTarget_majority[OF this] obtain t where
    t: "t \<in> set (map fixTarget found)"
    "topTargetOf (targetCountsOf (map fixTarget found)) = Some t"
    "\<forall>t'. count_list (map fixTarget found) t' \<le> count_list (map fixTarget found) t"
    by blast
  from v invalid found noerr t(2) have "blueprintValidatorRouter s = Back t"
    by (simp add: blueprintValidatorRouter_def)
  with t show "\<exists>t \<in> fixTarget ` set found.
      blueprintValidatorRouter s = Back t
      \<and> (\<forall>t'. count_list (map fixTarget found) t' \<le> count_list (map fixTarget found) t)"
    by auto
qed

text \<open>An error behind a warning, and a two-to-one vote among warnings.\<close>

theorem router_target_selection_witness:
  "blueprintValidatorRouter
     (stateWithIssues (Some [issueFor warning architectStep4, issueFor error architectStep3,
                             issueFor error architectStep2]))
     = Back architectStep3
   \<and> blueprintValidatorRouter
     (stateWithIssues (Some [issueFor warning architectStep4, issueFor warning architectStep3,
                             issueFor warning architectStep3]))
     = Back architectStep3"
proof -
  let ?mixed = "[issueFor warning architectStep4, issueFor error architectStep3,
                 issueFor error architectStep2]"
  let ?warnings = "[issueFor warning architectStep4, issueFor warning architectStep3,
                    issueFor warning architectStep3]"
  have v: "blueprintValidation (stateWithIssues found)
             = Some \<lparr>isValid = False, issues = found, validationCycles = Some 1\<rparr>" for found
    by (simp add: stateWithIssues_def)
  have first: "blueprintValidatorRouter (stateWithIssues (Some ?mixed)) = Back architectStep3"
    using router_target_selection[OF v, of "Some ?mixed" ?mixed, THEN conjunct1,
        THEN spec, THEN spec, THEN spec,
        of "[issueFor warning architectStep4]" "issueFor error architectStep3"
           "[issueFor error architectStep2]"]
    by (simp add: issueFor_def)
  from router_target_selection[OF v, of "Some ?warnings" ?warnings, THEN conjunct2]
  obtain t where t: "t \<in> fixTarget ` set ?warnings"
    "blueprintValidatorRouter (stateWithIssues (Some ?warnings)) = Back t"
    "\<forall>t'. count_list (map fixTarget ?warnings) t' \<le> count_list (map fixTarget ?warnings) t"
    by (auto simp: issueFor_def)
  from t(3) have "count_list (map fixTarget ?warnings) architectStep3
      \<le> count_list (map fixTarget ?warnings) t" ..
  with t(1) have "t = architectStep3" by (auto simp: issueFor_def)
  with t(2) first show ?thesis by simp
qed

text \<open>
  Claim C10. When the validation result did not pass and its issue list is missing or
  empty, the router returns the end marker.
\<close>

theorem router_ends_without_issues:
  assumes "blueprintValidation s = Some v" and "\<not> isValid v"
    and "issues v = None \<or> issues v = Some []"
  shows "blueprintValidatorRouter s = End"
  using assms
  by (auto simp: blueprintValidatorRouter_def targetCountsOf_def topTargetOf_def)

theorem router_ends_without_issues_witness:
  "blueprintValidation (stateWithIssues None)
     = Some \<lparr>isValid = False, issues = None, validationCycles = Some 1\<rparr>
   \<and> blueprintValidatorRouter (stateWithIssues None) = End
   \<and> blueprintValidation (stateWithIssues (Some []))
     = Some \<lparr>isValid = False, issues = Some [], validationCycles = Some 1\<rparr>
   \<and> blueprintValidatorRouter (stateWithIssues (Some [])) = End"
proof -
  have v: "blueprintValidation (stateWithIssues found)
             = Some \<lparr>isValid = False, issues = found, validationCycles = Some 1\<rparr>" for found
    by (simp add: stateWithIssues_def)
  from router_ends_without_issues[OF v, of None] router_ends_without_issues[OF v, of "Some []"] v
  show ?thesis by simp
qed

end
